theory Spec2Isabelle
  imports Main
begin

section \<open>JavaScript values\<close>

text \<open>
  The values that travel through the agent at run time: plan arguments (typed
  \<^verbatim>\<open>unknown\<close> in the source), callback results and thrown errors. An object is the list of its own enumerable properties in enumeration
  order, which is what \<^verbatim>\<open>Object.values\<close> and \<^verbatim>\<open>Object.entries\<close> walk; for keys that are not
  array indices this is the order in which the keys were written.
\<close>

datatype jsval =
    JUndefined
  | JNull
  | JBool bool
  | JNum int
  | JStr string
  | JArr "jsval list"
  | JObj "(string \<times> jsval) list"
  | JError string

type_synonym jsobject = "(string \<times> jsval) list"

definition Object_values :: "jsobject \<Rightarrow> jsval list" where
  "Object_values obj = map snd obj"

definition Object_entries :: "jsobject \<Rightarrow> (string \<times> jsval) list" where
  "Object_entries obj = obj"

text \<open>Truthiness, as used by \<^verbatim>\<open>if (clearBeforeInput)\<close>.\<close>

fun truthy :: "jsval \<Rightarrow> bool" where
  "truthy JUndefined = False"
| "truthy JNull = False"
| "truthy (JBool b) = b"
| "truthy (JNum n) = (n \<noteq> 0)"
| "truthy (JStr s) = (s \<noteq> [])"
| "truthy (JArr _) = True"
| "truthy (JObj _) = True"
| "truthy (JError _) = True"

text \<open>The \<^verbatim>\<open>a ?? b\<close> operator: \<^verbatim>\<open>b\<close> when \<^verbatim>\<open>a\<close> is null or undefined.\<close>

fun nullish :: "jsval \<Rightarrow> jsval \<Rightarrow> jsval" where
  "nullish JUndefined d = d"
| "nullish JNull d = d"
| "nullish v d = v"

text \<open>Reading positional parameter \<open>k\<close> of a call: a missing argument is undefined.\<close>

definition param :: "jsval list \<Rightarrow> nat \<Rightarrow> jsval" where
  "param vs k = (if k < length vs then vs ! k else JUndefined)"

subsection \<open>Conversion to text\<close>

text \<open>
  A number is an integer; it stands for the double nearest to it, which is the number
  itself up to \<open>2^53\<close> in magnitude. Numbers with a fractional part are outside the
  model. \<open>number_text\<close> is \<^verbatim>\<open>Number::toString\<close> on such a number: the shortest digit
  string that reads back as the same double, written out in full below \<open>10^21\<close> and in
  exponent form from there on.
\<close>

definition digit_char :: "int \<Rightarrow> char" where
  "digit_char d = ''0123456789'' ! nat (d mod 10)"

function decimal :: "int \<Rightarrow> string" where
  "decimal n = (if n < 10 then [digit_char n] else decimal (n div 10) @ [digit_char n])"
  by pat_completeness auto

termination decimal
  by (relation "measure nat") auto

declare decimal.simps [simp del]

function bit_length :: "int \<Rightarrow> nat" where
  "bit_length n = (if n \<le> 0 then 0 else Suc (bit_length (n div 2)))"
  by pat_completeness auto

termination bit_length
  by (relation "measure nat") auto

declare bit_length.simps [simp del]

text \<open>The double nearest to a natural number, ties going to the even significand.\<close>

definition to_double :: "int \<Rightarrow> int" where
  "to_double n =
     (if bit_length n \<le> 53 then n
      else
        (let shift = bit_length n - 53;
             q = n div 2 ^ shift;
             r = n mod 2 ^ shift;
             half = 2 ^ (shift - 1)
         in (if half < r \<or> (r = half \<and> odd q) then q + 1 else q) * 2 ^ shift))"

text \<open>The first number past the largest double; from there on a number is infinite.\<close>

definition double_overflow :: int where
  "double_overflow = 179769313486231590772930519078902473361797697894230657273430081157732675805500963132708477322407536021120113879871393357658789768814416622492847430639474124377767893424865485276302219601246094119453082952085005768838150682342462881473913110540827237163350510684586298239947245938479716304835356329624224137216"

text \<open>
  The number with the fewest significant digits that still reads back as the double
  \<open>x\<close>: among the multiples of \<open>10^j\<close> next to \<open>x\<close>, for the largest \<open>j\<close> that has one, the
  one closest to \<open>x\<close>.
\<close>

fun shortest :: "int \<Rightarrow> nat \<Rightarrow> int" where
  "shortest x 0 = x"
| "shortest x (Suc j) =
     (let p = 10 ^ Suc j;
          lo = (x div p) * p;
          hi = lo + p;
          lo_ok = (0 < lo \<and> to_double lo = x);
          hi_ok = (to_double hi = x)
      in if lo_ok \<and> hi_ok then
           (if x - lo < hi - x \<or> (x - lo = hi - x \<and> even (x div p)) then lo else hi)
         else if lo_ok then lo
         else if hi_ok then hi
         else shortest x j)"

definition exponential :: "string \<Rightarrow> string" where
  "exponential ds =
     (let sig = rev (dropWhile (\<lambda>c. c = CHR ''0'') (rev ds))
      in hd sig # (if tl sig = [] then [] else CHR ''.'' # tl sig) @ ''e+''
           @ decimal (int (length ds) - 1))"

definition double_text :: "int \<Rightarrow> string" where
  "double_text x =
     (if double_overflow \<le> x then ''Infinity''
      else
        (let ds = decimal (shortest x (length (decimal x)))
         in if length ds \<le> 21 then ds else exponential ds))"

definition number_text :: "int \<Rightarrow> string" where
  "number_text i =
     (if i < 0 then CHR ''-'' # double_text (to_double (- i)) else double_text (to_double i))"

fun join :: "string \<Rightarrow> string list \<Rightarrow> string" where
  "join sep [] = []"
| "join sep [x] = x"
| "join sep (x # y # ys) = x @ sep @ join sep (y # ys)"

text \<open>
  What a template literal \<^verbatim>\<open>${v}\<close> produces. Inside an array, null and undefined
  elements are rendered as the empty text.
\<close>

fun to_text :: "jsval \<Rightarrow> string" where
  "to_text JUndefined = ''undefined''"
| "to_text JNull = ''null''"
| "to_text (JBool b) = (if b then ''true'' else ''false'')"
| "to_text (JNum n) = number_text n"
| "to_text (JStr s) = s"
| "to_text (JArr vs) =
     join '','' (map (\<lambda>v. if v = JUndefined \<or> v = JNull then [] else to_text v) vs)"
| "to_text (JObj ps) = ''[object Object]''"
| "to_text (JError m) = (if m = [] then ''Error'' else ''Error: '' @ m)"

section \<open>Insertion-ordered maps\<close>

text \<open>
  A JavaScript \<^verbatim>\<open>Map\<close> keeps its entries in insertion order; \<^verbatim>\<open>set\<close> on an existing key
  replaces the value in place, \<^verbatim>\<open>delete\<close> removes the entry.
\<close>

type_synonym ('k, 'v) jsmap = "('k \<times> 'v) list"

fun Map_set :: "('k, 'v) jsmap \<Rightarrow> 'k \<Rightarrow> 'v \<Rightarrow> ('k, 'v) jsmap" where
  "Map_set [] k v = [(k, v)]"
| "Map_set ((k', v') # m) k v = (if k' = k then (k, v) # m else (k', v') # Map_set m k v)"

definition Map_get :: "('k, 'v) jsmap \<Rightarrow> 'k \<Rightarrow> 'v option" where
  "Map_get m k = map_of m k"

definition Map_delete :: "('k, 'v) jsmap \<Rightarrow> 'k \<Rightarrow> ('k, 'v) jsmap" where
  "Map_delete m k = filter (\<lambda>e. fst e \<noteq> k) m"

section \<open>Parameter names of a function (utils: getParamNames)\<close>

text \<open>
  Characters are single code units below 256. The class \<^verbatim>\<open>\s\<close> of the regular
  expression is tab, line feed, vertical tab, form feed, carriage return, space and
  no-break space; the line terminators that stop \<^verbatim>\<open>.\<close> are line feed and carriage return.
\<close>

definition is_line_terminator :: "char \<Rightarrow> bool" where
  "is_line_terminator c = (c = CHR 0x0A \<or> c = CHR 0x0D)"

definition is_space :: "char \<Rightarrow> bool" where
  "is_space c = (c \<in> set [CHR 0x09, CHR 0x0A, CHR 0x0B, CHR 0x0C, CHR 0x0D, CHR 0x20, CHR 0xA0])"

text \<open>The rest of the text after the first \<^verbatim>\<open>*/\<close>, if there is one.\<close>

fun after_close :: "string \<Rightarrow> string option" where
  "after_close (c # d # cs) =
     (if c = CHR ''*'' \<and> d = CHR ''/'' then Some cs else after_close (d # cs))"
| "after_close _ = None"

text \<open>
  \<^verbatim>\<open>funcStr.replace(STRIP_COMMENTS, "")\<close>: scanning from the left, a \<^verbatim>\<open>//\<close> removes up to
  the end of its line, a \<^verbatim>\<open>/*\<close> removes through the first \<^verbatim>\<open>*/\<close> that follows; an unclosed
  \<^verbatim>\<open>/*\<close> matches nothing and is kept.
\<close>

function strip_comments :: "string \<Rightarrow> string" where
  "strip_comments [] = []"
| "strip_comments [c] = [c]"
| "strip_comments (c # d # cs) =
     (if c = CHR ''/'' \<and> d = CHR ''/'' then
        strip_comments (dropWhile (\<lambda>x. \<not> is_line_terminator x) cs)
      else if c = CHR ''/'' \<and> d = CHR ''*'' then
        (case after_close cs of
           Some rest \<Rightarrow> strip_comments rest
         | None \<Rightarrow> c # strip_comments (d # cs))
      else c # strip_comments (d # cs))"
  by pat_completeness auto

lemma after_close_length: "after_close cs = Some rest \<Longrightarrow> length rest < length cs"
  by (induction cs arbitrary: rest rule: after_close.induct) (auto split: if_splits)

lemma dropWhile_shorter: "length (dropWhile P cs) < Suc (Suc (length cs))"
  using length_dropWhile_le [of P cs] by simp

termination strip_comments
  by (relation "measure length") (auto dest: after_close_length simp: dropWhile_shorter)

text \<open>\<^verbatim>\<open>String.prototype.indexOf\<close> for a single character: \<open>-1\<close> when absent.\<close>

fun indexOf_from :: "string \<Rightarrow> char \<Rightarrow> int \<Rightarrow> int" where
  "indexOf_from [] ch k = - 1"
| "indexOf_from (c # cs) ch k = (if c = ch then k else indexOf_from cs ch (k + 1))"

definition indexOf :: "string \<Rightarrow> char \<Rightarrow> int" where
  "indexOf s ch = indexOf_from s ch 0"

text \<open>\<^verbatim>\<open>String.prototype.slice\<close>: a negative bound counts from the end.\<close>

definition slice :: "string \<Rightarrow> int \<Rightarrow> int \<Rightarrow> string" where
  "slice s start end =
     (let len = int (length s);
          from = (if start < 0 then max (len + start) 0 else min start len);
          to = (if end < 0 then max (len + end) 0 else min end len)
      in if from < to then take (nat (to - from)) (drop (nat from) s) else [])"

text \<open>
  \<^verbatim>\<open>match(/([^\s,]+)/g)\<close>: the maximal runs of characters that are neither white space
  nor a comma. The accumulator holds the run being read.
\<close>

fun argument_names :: "string \<Rightarrow> string \<Rightarrow> string list" where
  "argument_names acc [] = (if acc = [] then [] else [acc])"
| "argument_names acc (c # cs) =
     (if is_space c \<or> c = CHR '',''
      then (if acc = [] then argument_names [] cs else acc # argument_names [] cs)
      else argument_names (acc @ [c]) cs)"

definition getParamNames :: "string \<Rightarrow> string list" where
  "getParamNames func_text =
     (let funcStr = strip_comments func_text
      in argument_names []
           (slice funcStr (indexOf funcStr (CHR ''('') + 1) (indexOf funcStr (CHR '')''))))"

section \<open>Conversion to a number\<close>

text \<open>
  The value of \<^verbatim>\<open>ToNumber\<close>. A finite double is a dyadic rational: \<open>Finite m k\<close> stands for
  \<open>m / 2^k\<close>, with \<open>m\<close> odd unless \<open>k = 0\<close>. The sign of zero is not kept.
\<close>

datatype double = NaN | Infinite bool | Finite int nat

fun dyadic :: "int \<Rightarrow> nat \<Rightarrow> double" where
  "dyadic m 0 = Finite m 0"
| "dyadic m (Suc k) = (if even m then dyadic (m div 2) k else Finite m (Suc k))"

text \<open>
  The double nearest to \<open>p / q\<close>, for positive \<open>p\<close> and \<open>q\<close>: 53 significant bits, fewer
  below \<open>2^-1022\<close>, ties going to the even significand.
\<close>

definition round_ratio :: "int \<Rightarrow> int \<Rightarrow> double" where
  "round_ratio p q =
     (let e0 = int (bit_length p) - int (bit_length q);
          e = (if (if 0 \<le> e0 then p < q * 2 ^ nat e0 else p * 2 ^ nat (- e0) < q) then e0 - 1 else e0);
          u = max (e - 52) (- 1074);
          num = (if u < 0 then p * 2 ^ nat (- u) else p);
          den = (if u < 0 then q else q * 2 ^ nat u);
          m = num div den;
          r = num mod den;
          m' = (if den < 2 * r \<or> (2 * r = den \<and> odd m) then m + 1 else m)
      in if u < 0 then dyadic m' (nat (- u))
         else if double_overflow \<le> m' * 2 ^ nat u then Infinite False
         else Finite (m' * 2 ^ nat u) 0)"

fun negate :: "double \<Rightarrow> double" where
  "negate NaN = NaN"
| "negate (Infinite negative) = Infinite (\<not> negative)"
| "negate (Finite m k) = Finite (- m) k"

definition ratio :: "int \<Rightarrow> int \<Rightarrow> double" where
  "ratio p q =
     (if p = 0 then Finite 0 0
      else if p < 0 then negate (round_ratio (- p) q)
      else round_ratio p q)"

subsection \<open>Numeric strings\<close>

definition is_digit :: "char \<Rightarrow> bool" where
  "is_digit c = (c \<in> set ''0123456789'')"

definition digit_value :: "char \<Rightarrow> int" where
  "digit_value c =
     (if c \<in> set ''0123456789'' then int (of_char c) - 48
      else if c \<in> set ''abcdef'' then int (of_char c) - 87
      else if c \<in> set ''ABCDEF'' then int (of_char c) - 55
      else 16)"

definition digits_value :: "int \<Rightarrow> string \<Rightarrow> int" where
  "digits_value radix ds = foldl (\<lambda>n c. n * radix + digit_value c) 0 ds"

text \<open>\<^verbatim>\<open>0x\<close>, \<^verbatim>\<open>0o\<close> and \<^verbatim>\<open>0b\<close> literals: at least one digit, every digit below the radix, no sign.\<close>

definition radix_literal :: "int \<Rightarrow> string \<Rightarrow> double" where
  "radix_literal radix ds =
     (if ds \<noteq> [] \<and> (\<forall>c \<in> set ds. digit_value c < radix) then ratio (digits_value radix ds) 1
      else NaN)"

text \<open>
  The exponent part of a decimal literal: absent, or \<^verbatim>\<open>e\<close> or \<^verbatim>\<open>E\<close>, an optional sign and
  at least one digit, up to the end of the text.
\<close>

definition exponent_part :: "string \<Rightarrow> int option" where
  "exponent_part s =
     (case s of
        [] \<Rightarrow> Some 0
      | c # rest \<Rightarrow>
          if c = CHR ''e'' \<or> c = CHR ''E'' then
            (let negative = (rest \<noteq> [] \<and> hd rest = CHR ''-'');
                 ds = (if rest \<noteq> [] \<and> (hd rest = CHR ''-'' \<or> hd rest = CHR ''+'') then tl rest else rest)
             in if ds \<noteq> [] \<and> (\<forall>d \<in> set ds. is_digit d)
                then Some (if negative then - digits_value 10 ds else digits_value 10 ds)
                else None)
          else None)"

text \<open>
  An unsigned decimal literal: \<^verbatim>\<open>Infinity\<close>, or digits with an optional fraction and an
  optional exponent, with a digit on at least one side of the point.
\<close>

definition unsigned_decimal :: "string \<Rightarrow> double" where
  "unsigned_decimal s =
     (if s = ''Infinity'' then Infinite False
      else
        (let whole = takeWhile is_digit s;
             rest = dropWhile is_digit s;
             point = (rest \<noteq> [] \<and> hd rest = CHR ''.'');
             fraction = (if point then takeWhile is_digit (tl rest) else []);
             rest' = (if point then dropWhile is_digit (tl rest) else rest)
         in if whole = [] \<and> fraction = [] then NaN
            else
              (case exponent_part rest' of
                 None \<Rightarrow> NaN
               | Some e \<Rightarrow>
                   (let n = digits_value 10 (whole @ fraction);
                        e10 = e - int (length fraction)
                    in if n = 0 then Finite 0 0
                       else if 0 \<le> e10 then ratio (n * 10 ^ nat e10) 1
                       else ratio n (10 ^ nat (- e10))))))"

text \<open>
  \<^verbatim>\<open>StringToNumber\<close>: white space around the literal is dropped (within the characters of
  the model it is the class \<^verbatim>\<open>\s\<close>), and the empty text is 0.
\<close>

definition trim :: "string \<Rightarrow> string" where
  "trim s = rev (dropWhile is_space (rev (dropWhile is_space s)))"

definition StringToNumber :: "string \<Rightarrow> double" where
  "StringToNumber str =
     (let s = trim str
      in if s = [] then Finite 0 0
         else if take 2 s \<in> set [''0x'', ''0X''] then radix_literal 16 (drop 2 s)
         else if take 2 s \<in> set [''0o'', ''0O''] then radix_literal 8 (drop 2 s)
         else if take 2 s \<in> set [''0b'', ''0B''] then radix_literal 2 (drop 2 s)
         else if hd s = CHR ''-'' then negate (unsigned_decimal (tl s))
         else if hd s = CHR ''+'' then unsigned_decimal (tl s)
         else unsigned_decimal s)"

text \<open>
  \<^verbatim>\<open>ToNumber\<close>. An array, an object and an error are first turned into their text.
\<close>

fun ToNumber :: "jsval \<Rightarrow> double" where
  "ToNumber JUndefined = NaN"
| "ToNumber JNull = Finite 0 0"
| "ToNumber (JBool b) = Finite (if b then 1 else 0) 0"
| "ToNumber (JNum n) = ratio n 1"
| "ToNumber (JStr s) = StringToNumber s"
| "ToNumber v = StringToNumber (to_text v)"

text \<open>The comparisons \<^verbatim>\<open>x >= n\<close> and \<^verbatim>\<open>x <= n\<close> of a number with an integer.\<close>

fun at_least :: "double \<Rightarrow> int \<Rightarrow> bool" where
  "at_least NaN n = False"
| "at_least (Infinite negative) n = (\<not> negative)"
| "at_least (Finite m k) n = (n * 2 ^ k \<le> m)"

fun at_most :: "double \<Rightarrow> int \<Rightarrow> bool" where
  "at_most NaN n = False"
| "at_most (Infinite negative) n = negative"
| "at_most (Finite m k) n = (m \<le> n * 2 ^ k)"

text \<open>\<^verbatim>\<open>x - 1\<close>.\<close>

fun minus_one :: "double \<Rightarrow> double" where
  "minus_one NaN = NaN"
| "minus_one (Infinite negative) = Infinite negative"
| "minus_one (Finite m k) = ratio (m - 2 ^ k) (2 ^ k)"

text \<open>\<^verbatim>\<open>xs[x]\<close>: the element of an array that a number used as a property key selects, if any.\<close>

fun element_at :: "'a list \<Rightarrow> double \<Rightarrow> 'a option" where
  "element_at xs (Finite m k) = (if k = 0 \<and> 0 \<le> m \<and> m < int (length xs) then Some (xs ! nat m) else None)"
| "element_at xs _ = None"

section \<open>Buffers\<close>

text \<open>
  \<^verbatim>\<open>ToUint8\<close>, as storing into a byte array does it: the number is truncated towards zero
  and taken modulo 256; what is not finite becomes 0.
\<close>

fun ToUint8 :: "double \<Rightarrow> int" where
  "ToUint8 (Finite m k) = (if m < 0 then - ((- m) div 2 ^ k) else m div 2 ^ k) mod 256"
| "ToUint8 _ = 0"

text \<open>The UTF-8 bytes of a text whose code units are below 256.\<close>

definition utf8 :: "string \<Rightarrow> int list" where
  "utf8 s =
     concat (map (\<lambda>c. let n = int (of_char c :: nat)
                      in if n < 128 then [n] else [192 + n div 64, 128 + n mod 64]) s)"

definition base64_char :: "int \<Rightarrow> char" where
  "base64_char n =
     ''ABCDEFGHIJKLMNOPQRSTUVWXYZabcdefghijklmnopqrstuvwxyz0123456789+/'' ! nat n"

fun base64 :: "int list \<Rightarrow> string" where
  "base64 (a # b # c # rest) =
     [base64_char (a div 4), base64_char ((a mod 4) * 16 + b div 16),
      base64_char ((b mod 16) * 4 + c div 64), base64_char (c mod 64)] @ base64 rest"
| "base64 [a, b] =
     [base64_char (a div 4), base64_char ((a mod 4) * 16 + b div 16),
      base64_char ((b mod 16) * 4), CHR ''='']"
| "base64 [a] = [base64_char (a div 4), base64_char ((a mod 4) * 16), CHR ''='', CHR ''='']"
| "base64 [] = []"

text \<open>
  The error of \<^verbatim>\<open>Buffer.from\<close> for a value it cannot read, with the description of the
  value that ends its message.
\<close>

fun received_text :: "jsval \<Rightarrow> string" where
  "received_text JUndefined = ''undefined''"
| "received_text JNull = ''null''"
| "received_text (JBool b) = ''type boolean ('' @ to_text (JBool b) @ '')''"
| "received_text (JNum n) = ''type number ('' @ number_text n @ '')''"
| "received_text (JStr s) = ''type string''"
| "received_text (JArr vs) = ''an instance of Array''"
| "received_text (JObj ps) = ''an instance of Object''"
| "received_text (JError m) = ''an instance of Error''"

definition ERR_INVALID_ARG_TYPE :: "jsval \<Rightarrow> jsval" where
  "ERR_INVALID_ARG_TYPE v =
     JError (''TypeError [ERR_INVALID_ARG_TYPE]: The first argument must be of type string or an instance of Buffer, ArrayBuffer, or Array or an Array-like Object. Received ''
             @ received_text v)"

text \<open>\<^verbatim>\<open>obj[name]\<close> for a name that no object inherits: a missing property is undefined.\<close>

definition property :: "jsobject \<Rightarrow> string \<Rightarrow> jsval" where
  "property obj name = (case map_of obj name of None \<Rightarrow> JUndefined | Some v \<Rightarrow> v)"

definition bytes :: "jsval list \<Rightarrow> int list" where
  "bytes vs = map (\<lambda>e. ToUint8 (ToNumber e)) vs"

text \<open>
  The bytes of an array-like object of the given length: the elements under the keys
  \<open>0\<close>, \<open>1\<close>, and so on.
\<close>

definition fromArrayLike :: "jsobject \<Rightarrow> int \<Rightarrow> int list" where
  "fromArrayLike obj len = map (\<lambda>i. ToUint8 (ToNumber (property obj (number_text (int i))))) [0..<nat len]"

text \<open>
  The bytes that \<^verbatim>\<open>Buffer.from\<close> reads from an object that is not an array: the elements
  of an object with a \<^verbatim>\<open>length\<close> (none when the length is not a number), or the elements
  of its \<^verbatim>\<open>data\<close> when that is an array and its \<^verbatim>\<open>type\<close> is \<^verbatim>\<open>Buffer\<close>.
\<close>

definition fromObject :: "jsobject \<Rightarrow> int list option" where
  "fromObject obj =
     (if property obj ''length'' \<noteq> JUndefined then
        (case property obj ''length'' of
           JNum len \<Rightarrow> Some (fromArrayLike obj len)
         | _ \<Rightarrow> Some [])
      else if property obj ''type'' = JStr ''Buffer'' then
        (case property obj ''data'' of
           JArr vs \<Rightarrow> Some (bytes vs)
         | _ \<Rightarrow> None)
      else None)"

text \<open>
  \<^verbatim>\<open>Buffer.from(value)\<close>, as Node defines it: the UTF-8 bytes of a string and the elements
  of an array as bytes. For any other object it first calls \<^verbatim>\<open>valueOf\<close>: a key of that
  name hides the inherited method, so a truthy value under it is called and is not a
  function, and an empty string under it is read as the value. Everything else is
  refused.
\<close>

definition Buffer_from :: "jsval \<Rightarrow> jsval + int list" where
  "Buffer_from v =
     (case v of
        JStr s \<Rightarrow> Inr (utf8 s)
      | JArr vs \<Rightarrow> Inr (bytes vs)
      | JObj obj \<Rightarrow>
          (let valueOf = map_of obj ''valueOf''
           in if valueOf \<noteq> None \<and> truthy (the valueOf)
              then Inl (JError ''TypeError: value.valueOf is not a function'')
              else if valueOf = Some (JStr []) then Inr []
              else (case fromObject obj of
                      Some b \<Rightarrow> Inr b
                    | None \<Rightarrow> Inl (ERR_INVALID_ARG_TYPE v)))
      | _ \<Rightarrow> Inl (ERR_INVALID_ARG_TYPE v))"

section \<open>The browser session\<close>

text \<open>
  The browser-control collaborator is outside the repository. A tab is modelled by what
  the agent reads from it (url, title, markup, \<^verbatim>\<open>document.hidden\<close>, the selectors for
  which \<^verbatim>\<open>waitForSelector\<close> resolves) and by the list of interactions it has received.
  Navigation and element operations are taken to resolve; a selector wait rejects when
  the selector is not present. A page is referred to by its position in
  \<^verbatim>\<open>browser.pages()\<close>, an element handle by its page and selector.
\<close>

datatype interaction =
    Goto jsval
  | GoBack
  | Reload
  | ScrollBy jsval
  | Click string
  | SetValueEmpty string
  | TypeText string jsval
  | Press string jsval

record page =
  url :: string
  title :: string
  content :: string
  hidden :: bool
  selectors :: "string list"
  received :: "interaction list"

type_synonym browser = "page list"

type_synonym element_handle = "nat \<times> string"

definition blank_page :: page where
  "blank_page =
     \<lparr>url = ''about:blank'', title = [], content = ''<html><head></head><body></body></html>'',
      hidden = False, selectors = [''html'', ''head'', ''body''], received = []\<rparr>"

definition interact :: "nat \<Rightarrow> interaction \<Rightarrow> browser \<Rightarrow> browser" where
  "interact p a b = (if p < length b then b[p := (b ! p)\<lparr>received := received (b ! p) @ [a]\<rparr>] else b)"

definition bringToFront :: "nat \<Rightarrow> browser \<Rightarrow> browser" where
  "bringToFront p b = map (\<lambda>(q, pg). pg\<lparr>hidden := (q \<noteq> p)\<rparr>) (zip [0..<length b] b)"

definition page_goto :: "nat \<Rightarrow> jsval \<Rightarrow> browser \<Rightarrow> browser" where
  "page_goto p u b =
     (if p < length b
      then b[p := (b ! p)\<lparr>url := to_text u, received := received (b ! p) @ [Goto u]\<rparr>]
      else b)"

definition page_close :: "nat \<Rightarrow> browser \<Rightarrow> browser" where
  "page_close p b = take p b @ drop (Suc p) b"

text \<open>\<^verbatim>\<open>p.waitForSelector(selector)\<close>: resolves, or rejects with a timeout error.\<close>

definition TimeoutError :: "jsval \<Rightarrow> jsval" where
  "TimeoutError selector = JError (''Waiting for selector failed: '' @ to_text selector)"

definition waitForSelector :: "page \<Rightarrow> jsval \<Rightarrow> jsval + string" where
  "waitForSelector p selector =
     (case selector of
        JStr s \<Rightarrow> (if s \<in> set (selectors p) then Inr s else Inl (TimeoutError selector))
      | _ \<Rightarrow> Inl (TimeoutError selector))"

text \<open>
  The visibility check of one tab, as \<^verbatim>\<open>getCurrentPage\<close> runs it inside its
  \<^verbatim>\<open>try\<close>: a rejected wait for \<^verbatim>\<open>html\<close> is caught and counts as not visible.
\<close>

definition visibility :: "page \<Rightarrow> jsval + bool" where
  "visibility p =
     (case waitForSelector p (JStr ''html'') of
        Inl e \<Rightarrow> Inl e
      | Inr _ \<Rightarrow> Inr (\<not> hidden p))"

definition getCurrentPage :: "browser \<Rightarrow> nat option" where
  "getCurrentPage b =
     (let pages = b;
          vis_results = map (\<lambda>p. case visibility p of Inl _ \<Rightarrow> False | Inr v \<Rightarrow> v) pages
      in case filter (\<lambda>index. vis_results ! index) [0..<length pages] of
           [] \<Rightarrow> None
         | p # _ \<Rightarrow> Some p)"

definition selectElementHandle :: "browser \<Rightarrow> jsval \<Rightarrow> jsval + element_handle option" where
  "selectElementHandle b selector =
     (case getCurrentPage b of
        None \<Rightarrow> Inr None
      | Some p \<Rightarrow>
          (case waitForSelector (b ! p) selector of
             Inl e \<Rightarrow> Inl e
           | Inr s \<Rightarrow> Inr (Some (p, s))))"

subsection \<open>The browser-state snapshot\<close>

text \<open>
  \<^verbatim>\<open>Array.prototype.findIndex\<close> tests the truthiness of what the predicate returns. In
  \<^verbatim>\<open>getCurrentBrowserState\<close> the predicate is an \<^verbatim>\<open>async\<close> function, so what is tested is
  the promise it returns; a promise is an object, and every object is truthy.
\<close>

datatype 'a promise = Promise "jsval + 'a"

definition promise_truthy :: "'a promise \<Rightarrow> bool" where
  "promise_truthy pr = (case pr of Promise _ \<Rightarrow> True)"

fun findIndex_from :: "('a \<Rightarrow> bool) \<Rightarrow> 'a list \<Rightarrow> int \<Rightarrow> int" where
  "findIndex_from pred [] k = - 1"
| "findIndex_from pred (x # xs) k = (if pred x then k else findIndex_from pred xs (k + 1))"

definition findIndex :: "('a \<Rightarrow> bool) \<Rightarrow> 'a list \<Rightarrow> int" where
  "findIndex pred xs = findIndex_from pred xs 0"

record browser_state =
  bs_url :: string
  bs_title :: string
  bs_currentTabIndex :: int
  bs_tabs :: "(string \<times> string) list"
  bs_content :: string

text \<open>
  \<^verbatim>\<open>Promise.all\<close> over the tabs: each entry waits for \<^verbatim>\<open>html\<close> with no \<^verbatim>\<open>catch\<close>, so one
  tab without it rejects the whole snapshot.
\<close>

fun tab_entries :: "page list \<Rightarrow> jsval + (string \<times> string) list" where
  "tab_entries [] = Inr []"
| "tab_entries (p # ps) =
     (case waitForSelector p (JStr ''html'') of
        Inl e \<Rightarrow> Inl e
      | Inr _ \<Rightarrow>
          (case tab_entries ps of
             Inl e \<Rightarrow> Inl e
           | Inr ts \<Rightarrow> Inr ((url p, title p) # ts)))"

definition getCurrentBrowserState :: "(string \<Rightarrow> string) \<Rightarrow> browser \<Rightarrow> jsval + browser_state" where
  "getCurrentBrowserState sanitizeHTML b =
     (let page = getCurrentPage b;
          pages = b
      in case tab_entries pages of
           Inl e \<Rightarrow> Inl e
         | Inr tabs \<Rightarrow>
             Inr \<lparr>bs_url = (case page of None \<Rightarrow> [] | Some p \<Rightarrow> url (b ! p)),
                  bs_title = (case page of None \<Rightarrow> [] | Some p \<Rightarrow> title (b ! p)),
                  bs_currentTabIndex = findIndex (\<lambda>p. promise_truthy (Promise (visibility p))) pages,
                  bs_tabs = tabs,
                  bs_content = (case page of None \<Rightarrow> [] | Some p \<Rightarrow> sanitizeHTML (content (b ! p)))\<rparr>)"

section \<open>Plans, history records and the agent\<close>

datatype goal_evaluation = Success | Fail | Unknown

record plan_state =
  previousGoalEvaluation :: goal_evaluation
  evaluationReason :: string
  memory :: string
  nextGoal :: string

text \<open>
  \<^verbatim>\<open>Agent.LLMResponse\<close>. An entry of \<open>plan_actions\<close> is a pair of the action's name and
  its \<^verbatim>\<open>args\<close> object.
\<close>

record LLMResponse =
  state :: plan_state
  plan_actions :: "(string \<times> jsobject) list"

record action_result =
  success :: bool
  result :: jsval

record history_action =
  ha_name :: string
  ha_args :: jsobject
  ha_success :: bool
  ha_result :: jsval

text \<open>\<^verbatim>\<open>Agent.HistoryRecord\<close>; the \<^verbatim>\<open>Date\<close> is represented by its ISO text.\<close>

record HistoryRecord =
  time :: string
  tabs :: "(string \<times> string) list"
  currentTabIndex :: int
  hr_state :: plan_state
  hr_actions :: "history_action list"

text \<open>
  The mutable part of an \<^verbatim>\<open>Agent\<close> together with what it does to the outside: lines
  written to the console (the fixed text and the interpolated values), completed
  \<^verbatim>\<open>sleep\<close> calls, dispatched events, calls launched without \<^verbatim>\<open>await\<close>, and the
  number of completion requests issued so far.
\<close>

datatype background = BrowserClose | ShowDebugPage

record agent_state =
  history :: "HistoryRecord list"
  running :: bool
  browser :: browser
  console :: "(string \<times> jsval list) list"
  delays :: "jsval list"
  events :: "string list"
  launched :: "background list"
  requests :: nat

datatype outcome = Resolved jsval | Rejected jsval

type_synonym js_method = "jsval list \<Rightarrow> agent_state \<Rightarrow> outcome \<times> agent_state"

text \<open>\<^verbatim>\<open>Agent.Action\<close>; the type tag of a parameter is absent when no metadata names it.\<close>

record action =
  args :: "(string \<times> string option) list"
  description :: string
  callback :: js_method

text \<open>The read-only part of an \<^verbatim>\<open>Agent\<close>.\<close>

record agent =
  closeBrowserOnDone :: bool
  task :: string
  maxSteps :: int
  actions :: "(string, action) jsmap"

definition log :: "string \<Rightarrow> jsval list \<Rightarrow> agent_state \<Rightarrow> agent_state" where
  "log text vals st = st\<lparr>console := console st @ [(text, vals)]\<rparr>"

section \<open>Action registration\<close>

text \<open>
  A decorated method: the text \<^verbatim>\<open>toString()\<close> gives for it, and what calling it does.
  \<^verbatim>\<open>Agent.pendingActions\<close> is static, so it is passed in and handed back.
\<close>

record js_function =
  source_text :: string
  call :: js_method

definition DefineAction ::
  "string \<Rightarrow> string \<Rightarrow> js_function \<Rightarrow> string list option \<Rightarrow> (string, action) jsmap
     \<Rightarrow> (string, action) jsmap" where
  "DefineAction description' methodName descriptor_value design_paramtypes pendingActions =
     (let paramNames = getParamNames (source_text descriptor_value);
          paramTypes = (case design_paramtypes of None \<Rightarrow> [] | Some ts \<Rightarrow> ts);
          action =
            \<lparr>args = map (\<lambda>(name, index).
                           (name, if index < length paramTypes then Some (paramTypes ! index) else None))
                        (zip paramNames [0..<length paramNames]),
             description = description',
             callback = call descriptor_value\<rparr>
      in Map_set pendingActions methodName action)"

text \<open>
  The constructor's loop over the pending table: the entry being visited is stored in
  the agent's own map and deleted from the table, and the iteration goes on with the
  entries that are left.
\<close>

function register_pending ::
  "(string, action) jsmap \<Rightarrow> (string, action) jsmap
     \<Rightarrow> (string, action) jsmap \<times> (string, action) jsmap" where
  "register_pending acts [] = (acts, [])"
| "register_pending acts ((name, action) # rest) =
     register_pending (Map_set acts name action) (Map_delete ((name, action) # rest) name)"
  by pat_completeness auto

termination register_pending
  by (relation "measure (\<lambda>(acts, pending). length pending)")
     (auto simp: Map_delete_def le_imp_less_Suc)

record ConstructorArgs =
  arg_task :: string
  arg_closeBrowserOnDone :: "bool option"
  arg_maxSteps :: "int option"
  arg_browser :: browser

definition constructor ::
  "ConstructorArgs \<Rightarrow> (string, action) jsmap \<Rightarrow> (agent \<times> agent_state) \<times> (string, action) jsmap" where
  "constructor a pendingActions =
     (let (acts, pending') = register_pending [] pendingActions
      in ((\<lparr>closeBrowserOnDone = (case arg_closeBrowserOnDone a of None \<Rightarrow> True | Some c \<Rightarrow> c),
            task = arg_task a,
            maxSteps = (case arg_maxSteps a of None \<Rightarrow> 100 | Some m \<Rightarrow> m),
            actions = acts\<rparr>,
           \<lparr>history = [], running = False, browser = arg_browser a, console = [], delays = [],
            events = [], launched = [], requests = 0\<rparr>),
          pending'))"

section \<open>Message rendering\<close>

definition nl :: string where
  "nl = [CHR 0x0A]"

definition numbered :: "nat \<Rightarrow> string" where
  "numbered index = number_text (int index + 1)"

definition tab_lines :: "(string \<times> string) list \<Rightarrow> string" where
  "tab_lines ts =
     join nl (map (\<lambda>((u, t), index). numbered index @ ''. '' @ u @ '' ('' @ t @ '')'')
                  (zip ts [0..<length ts]))"

definition arg_text :: "string \<times> jsval \<Rightarrow> string" where
  "arg_text e =
     (case e of (k, v) \<Rightarrow>
        k @ '': '' @ (case v of JStr s \<Rightarrow> [CHR 0x22] @ s @ [CHR 0x22] | _ \<Rightarrow> to_text v))"

definition action_text :: "history_action \<times> nat \<Rightarrow> string" where
  "action_text e =
     (case e of (a, index) \<Rightarrow>
        numbered index @ ''.'' @ [CHR 0x09] @ ha_name a @ ''(''
          @ join '', '' (map arg_text (Object_entries (ha_args a))) @ '')''
          @ nl @ [CHR 0x09] @ ''Returned: ''
          @ (if ha_result a \<noteq> JNull then to_text (ha_result a) else ''Nothing was returned.''))"

definition createHistoryMessage :: "nat \<Rightarrow> HistoryRecord \<Rightarrow> string" where
  "createHistoryMessage index h =
     ''# History Record #'' @ numbered index @ nl @ nl
     @ ''## Time:'' @ nl @ time h @ nl @ nl
     @ ''## Tabs:'' @ nl @ tab_lines (tabs h) @ nl @ nl
     @ ''## Current Tab Index:'' @ nl @ number_text (currentTabIndex h + 1) @ nl @ nl
     @ ''## Actions Taken:'' @ nl
     @ join nl (map action_text (zip (hr_actions h) [0..<length (hr_actions h)])) @ nl"

definition createCurrentStateMessage ::
  "string \<Rightarrow> string \<Rightarrow> (string \<times> string) list \<Rightarrow> string \<Rightarrow> string" where
  "createCurrentStateMessage currentUrl currentTitle ts pageContent =
     ''# Current State:'' @ nl
     @ ''## Current Title and URL:'' @ nl @ currentTitle @ '' ('' @ currentUrl @ '')'' @ nl @ nl
     @ ''## Available Tabs:'' @ nl @ tab_lines ts @ nl @ nl
     @ ''## Current Page Content:'' @ nl @ pageContent"

section \<open>The actions of the class\<close>

text \<open>The decorated methods, in the order of the class body.\<close>

definition openNewTab :: "agent_state \<Rightarrow> outcome \<times> agent_state" where
  "openNewTab st =
     (let st1 = log ''Opening new tab'' [] st;
          b = browser st1 @ [blank_page]
      in (Resolved JUndefined, st1\<lparr>browser := bringToFront (length b - 1) b\<rparr>))"

definition goToUrl :: "jsval \<Rightarrow> agent_state \<Rightarrow> outcome \<times> agent_state" where
  "goToUrl url' st =
     (let st1 = log ''Navigating to URL'' [url'] st
      in case getCurrentPage (browser st1) of
           None \<Rightarrow> (Resolved JUndefined, st1)
         | Some p \<Rightarrow> (Resolved JUndefined, st1\<lparr>browser := page_goto p url' (browser st1)\<rparr>))"

definition goToDataUrl :: "jsval \<Rightarrow> jsval \<Rightarrow> agent_state \<Rightarrow> outcome \<times> agent_state" where
  "goToDataUrl content' contentType st =
     (case Buffer_from content' of
        Inl e \<Rightarrow> (Rejected e, st)
      | Inr b \<Rightarrow> goToUrl (JStr (''data:'' @ to_text contentType @ '';base64,'' @ base64 b)) st)"

text \<open>The method \<^verbatim>\<open>done\<close>; the name is a keyword here, hence the suffix.\<close>

definition done_action :: "agent_state \<Rightarrow> outcome \<times> agent_state" where
  "done_action st = (Resolved JUndefined, (log ''Marking task as complete'' [] st)\<lparr>running := False\<rparr>)"

definition closeTab :: "agent_state \<Rightarrow> outcome \<times> agent_state" where
  "closeTab st =
     (let st1 = log ''Closing current tab'' [] st
      in case getCurrentPage (browser st1) of
           None \<Rightarrow> (Resolved JUndefined, st1)
         | Some p \<Rightarrow> (Resolved JUndefined, st1\<lparr>browser := page_close p (browser st1)\<rparr>))"

definition goBack :: "agent_state \<Rightarrow> outcome \<times> agent_state" where
  "goBack st =
     (let st1 = log ''Going back to previous page'' [] st
      in case getCurrentPage (browser st1) of
           None \<Rightarrow> (Resolved JUndefined, st1)
         | Some p \<Rightarrow> (Resolved JUndefined, st1\<lparr>browser := interact p GoBack (browser st1)\<rparr>))"

definition refresh :: "agent_state \<Rightarrow> outcome \<times> agent_state" where
  "refresh st =
     (let st1 = log ''Refreshing current page'' [] st
      in case getCurrentPage (browser st1) of
           None \<Rightarrow> (Resolved JUndefined, st1)
         | Some p \<Rightarrow> (Resolved JUndefined, st1\<lparr>browser := interact p Reload (browser st1)\<rparr>))"

text \<open>
  \<^verbatim>\<open>switchTab\<close>: the comparisons read the index as a number, and \<^verbatim>\<open>pages[index - 1]\<close> is
  undefined when that number is not whole.
\<close>

definition no_property :: "string \<Rightarrow> jsval" where
  "no_property name =
     JError (''TypeError: Cannot read properties of undefined (reading '' @ name @ '')'')"

definition switchTab :: "jsval \<Rightarrow> agent_state \<Rightarrow> outcome \<times> agent_state" where
  "switchTab index st =
     (let st1 = log ''Switching to tab'' [index] st;
          pages = browser st1
      in if at_least (ToNumber index) 1 \<and> at_most (ToNumber index) (int (length pages)) then
           (case element_at [0..<length pages] (minus_one (ToNumber index)) of
              None \<Rightarrow> (Rejected (no_property ''bringToFront''), st1)
            | Some p \<Rightarrow> (Resolved JUndefined, st1\<lparr>browser := bringToFront p pages\<rparr>))
         else
           (Rejected (JError (''Tab index '' @ to_text index @ '' out of bounds (1 - ''
                               @ number_text (int (length pages)) @ '')'')), st1))"

definition scroll :: "jsval \<Rightarrow> agent_state \<Rightarrow> outcome \<times> agent_state" where
  "scroll amount st =
     (let st1 = log ''Scrolling'' [amount] st
      in case getCurrentPage (browser st1) of
           None \<Rightarrow> (Resolved JUndefined, st1)
         | Some p \<Rightarrow> (Resolved JUndefined, st1\<lparr>browser := interact p (ScrollBy amount) (browser st1)\<rparr>))"

definition clickElement :: "jsval \<Rightarrow> agent_state \<Rightarrow> outcome \<times> agent_state" where
  "clickElement selector st =
     (let st1 = log ''Clicking element'' [selector] st
      in case selectElementHandle (browser st1) selector of
           Inl e \<Rightarrow> (Rejected e, st1)
         | Inr None \<Rightarrow> (Resolved JUndefined, st1)
         | Inr (Some (p, s)) \<Rightarrow>
             (Resolved JUndefined, st1\<lparr>browser := interact p (Click s) (browser st1)\<rparr>))"

definition inputText :: "jsval \<Rightarrow> jsval \<Rightarrow> jsval \<Rightarrow> agent_state \<Rightarrow> outcome \<times> agent_state" where
  "inputText selector value' clearBeforeInput' st =
     (let clearBeforeInput = (if clearBeforeInput' = JUndefined then JBool True else clearBeforeInput');
          st1 = log ''Inputting text'' [value'] st
      in case selectElementHandle (browser st1) selector of
           Inl e \<Rightarrow> (Rejected e, st1)
         | Inr None \<Rightarrow> (Rejected (JError (''Element '' @ to_text selector @ '' not found'')), st1)
         | Inr (Some (p, s)) \<Rightarrow>
             (let b1 = (if truthy clearBeforeInput
                        then interact p (SetValueEmpty s) (browser st1) else browser st1);
                  b2 = interact p (Click s) b1;
                  b3 = interact p (TypeText s value') b2
              in (Resolved JUndefined, st1\<lparr>browser := b3\<rparr>)))"

definition sendKey :: "jsval \<Rightarrow> jsval \<Rightarrow> agent_state \<Rightarrow> outcome \<times> agent_state" where
  "sendKey selector key st =
     (let st1 = log ''Sending key to element'' [key, selector] st
      in case selectElementHandle (browser st1) selector of
           Inl e \<Rightarrow> (Rejected e, st1)
         | Inr None \<Rightarrow> (Resolved JUndefined, st1)
         | Inr (Some (p, s)) \<Rightarrow>
             (Resolved JUndefined, st1\<lparr>browser := interact p (Press s key) (browser st1)\<rparr>))"

definition sleep :: "jsval \<Rightarrow> agent_state \<Rightarrow> outcome \<times> agent_state" where
  "sleep ms st =
     (let st1 = log ''Sleeping for'' [ms] st
      in (Resolved JUndefined, st1\<lparr>delays := delays st1 @ [ms]\<rparr>))"

text \<open>
  Evaluating a class body runs the decorators of its methods in order; each is given by
  its description, the method's name, the method itself and the parameter-type metadata
  the compiler emitted for it.
\<close>

definition decorated ::
  "(string \<times> string \<times> js_function \<times> string list option) list \<Rightarrow> (string, action) jsmap
     \<Rightarrow> (string, action) jsmap" where
  "decorated ds pendingActions =
     foldl (\<lambda>pending (description', methodName, f, paramtypes).
              DefineAction description' methodName f paramtypes pending) pendingActions ds"

definition class_methods :: "(string \<times> string \<times> js_function \<times> string list option) list" where
  "class_methods =
     [(''Open a new tab with the given url'', ''openNewTab'',
       \<lparr>source_text = ''async openNewTab() {}'', call = (\<lambda>vs. openNewTab)\<rparr>, Some []),
      (''Go to the given url'', ''goToUrl'',
       \<lparr>source_text = ''async goToUrl(url) {}'', call = (\<lambda>vs. goToUrl (param vs 0))\<rparr>,
       Some [''String'']),
      (''Go to a page with the given text displayed, supported content types are: ''
         @ CHR 0x22 # ''text/html'' @ CHR 0x22 # '' and '' @ CHR 0x22 # ''text/plain'' @ [CHR 0x22],
       ''goToDataUrl'',
       \<lparr>source_text = ''async goToDataUrl(content, contentType) {}'',
        call = (\<lambda>vs. goToDataUrl (param vs 0) (param vs 1))\<rparr>,
       Some [''String'', ''String'']),
      (''Marks the task as complete, breaking the execution loop.'', ''done'',
       \<lparr>source_text = ''async done() {}'', call = (\<lambda>vs. done_action)\<rparr>, Some []),
      (''Close the current tab'', ''closeTab'',
       \<lparr>source_text = ''async closeTab() {}'', call = (\<lambda>vs. closeTab)\<rparr>, Some []),
      (''Navigate back to the previous page'', ''goBack'',
       \<lparr>source_text = ''async goBack() {}'', call = (\<lambda>vs. goBack)\<rparr>, Some []),
      (''Refreshes the current page'', ''refresh'',
       \<lparr>source_text = ''async refresh() {}'', call = (\<lambda>vs. refresh)\<rparr>, Some []),
      (''Switch to the tab at the given index (1-based)'', ''switchTab'',
       \<lparr>source_text = ''async switchTab(index) {}'', call = (\<lambda>vs. switchTab (param vs 0))\<rparr>,
       Some [''Number'']),
      (''Scroll down the page by the specified number of pixels, positive is down, negative is up'',
       ''scroll'',
       \<lparr>source_text = ''async scroll(amount) {}'', call = (\<lambda>vs. scroll (param vs 0))\<rparr>,
       Some [''Number'']),
      (''Clicks the element matching the given selector'', ''clickElement'',
       \<lparr>source_text = ''async clickElement(selector) {}'',
        call = (\<lambda>vs. clickElement (param vs 0))\<rparr>,
       Some [''String'']),
      (''Inputs the value into the currently selected element'', ''inputText'',
       \<lparr>source_text = ''async inputText(selector, value, clearBeforeInput = true) {}'',
        call = (\<lambda>vs. inputText (param vs 0) (param vs 1) (param vs 2))\<rparr>,
       Some [''String'', ''String'', ''Boolean'']),
      (''Send a key press event to the currently selected element'', ''sendKey'',
       \<lparr>source_text = ''async sendKey(selector, key) {}'',
        call = (\<lambda>vs. sendKey (param vs 0) (param vs 1))\<rparr>,
       Some [''String'', ''String'']),
      (''Pauses the action loop for the given number of milliseconds. Be conservative with your sleep calls, they should only be used when necessary.'',
       ''sleep'',
       \<lparr>source_text = ''async sleep(ms) {}'', call = (\<lambda>vs. sleep (param vs 0))\<rparr>,
       Some [''Number''])]"

text \<open>The pending table once the class body has been evaluated.\<close>

definition class_actions :: "(string, action) jsmap" where
  "class_actions = decorated class_methods []"

section \<open>The step engine\<close>

text \<open>
  What the agent's collaborators answer. The completion service is a script indexed by
  the number of the request; \<^verbatim>\<open>JSON.parse\<close> either throws (\<open>None\<close>) or yields a value
  that the source takes to be an \<^verbatim>\<open>Agent.LLMResponse\<close> without further validation;
  \<open>clock\<close> is what \<^verbatim>\<open>new Date()\<close> reads while the given request is handled. The text
  of the request does not influence any property below, and the fixed prose of the
  system message is not reproduced.
\<close>

datatype thrown = APIError int string "string option" | Thrown jsval

datatype api_result = Completion string | Failed thrown

record env =
  completions :: "nat \<Rightarrow> api_result"
  JSON_parse :: "string \<Rightarrow> LLMResponse option"
  sanitizeHTML :: "string \<Rightarrow> string"
  clock :: "nat \<Rightarrow> string"

record messages =
  msg_history :: "string list"
  msg_currentState :: string

definition generateMessages :: "env \<Rightarrow> agent \<Rightarrow> agent_state \<Rightarrow> jsval + messages" where
  "generateMessages env ag st =
     (case getCurrentBrowserState (sanitizeHTML env) (browser st) of
        Inl e \<Rightarrow> Inl e
      | Inr bState \<Rightarrow>
          Inr \<lparr>msg_history = map (\<lambda>(h, i). createHistoryMessage i h)
                                   (zip (history st) [0..<length (history st)]),
               msg_currentState = createCurrentStateMessage (bs_url bState) (bs_title bState)
                                    (bs_tabs bState) (bs_content bState)\<rparr>)"

subsection \<open>Arrays with holes\<close>

text \<open>
  \<^verbatim>\<open>actionResults\<close> is written by index. Writing past the end extends the array and
  leaves holes; reading a hole or past the end gives undefined (\<open>None\<close>).
\<close>

definition array_set :: "'a option list \<Rightarrow> nat \<Rightarrow> 'a \<Rightarrow> 'a option list" where
  "array_set xs i v =
     (if i < length xs then xs[i := Some v]
      else xs @ replicate (i - length xs) None @ [Some v])"

definition array_get :: "'a option list \<Rightarrow> nat \<Rightarrow> 'a option" where
  "array_get xs i = (if i < length xs then xs ! i else None)"

subsection \<open>Dispatching the plan's actions\<close>

text \<open>
  One invocation: the callback is bound to the values of the \<^verbatim>\<open>args\<close> object and
  called; \<^verbatim>\<open>then\<close> wraps a result, \<^verbatim>\<open>catch\<close> logs and wraps an error.
\<close>

definition capture :: "string \<Rightarrow> outcome \<times> agent_state \<Rightarrow> action_result \<times> agent_state" where
  "capture name r =
     (case r of
        (Resolved res, st) \<Rightarrow> (\<lparr>success = True, result = nullish res JNull\<rparr>, st)
      | (Rejected error, st) \<Rightarrow>
          (\<lparr>success = False, result = error\<rparr>,
           log ''Failed to execute action'' [JStr name, error] st))"

definition invoke :: "string \<Rightarrow> action \<Rightarrow> jsobject \<Rightarrow> agent_state \<Rightarrow> action_result \<times> agent_state" where
  "invoke name action args' st =
     capture name
       (callback action (Object_values args')
          (log ''Executing action with args'' [JStr name, JObj args'] st))"

text \<open>
  The \<^verbatim>\<open>for\<close> loop of \<^verbatim>\<open>step\<close>, with its counter \<open>i\<close> and the results array: it breaks
  when the agent is no longer running, and skips (counting the slot) a name that is not
  registered.
\<close>

fun run_actions ::
  "agent \<Rightarrow> (string \<times> jsobject) list \<Rightarrow> nat \<Rightarrow> action_result option list \<Rightarrow> agent_state
     \<Rightarrow> action_result option list \<times> agent_state" where
  "run_actions ag [] i actionResults st = (actionResults, st)"
| "run_actions ag ((name, args') # rest) i actionResults st =
     (if \<not> running st then
        (actionResults, log ''No longer running, stopping execution of current actions'' [] st)
      else
        (case Map_get (actions ag) name of
           None \<Rightarrow> run_actions ag rest (i + 1) actionResults (log ''Action not found'' [JStr name] st)
         | Some action \<Rightarrow>
             (case invoke name action args' st of
                (r, st') \<Rightarrow> run_actions ag rest (i + 1) (array_set actionResults i r) st')))"

text \<open>
  \<^verbatim>\<open>response.actions.map(...)\<close> when the record is built: reading \<^verbatim>\<open>.success\<close> of an
  undefined slot throws a TypeError.
\<close>

definition TypeError :: jsval where
  "TypeError = JError ''TypeError: Cannot read properties of undefined (reading success)''"

fun record_actions ::
  "(string \<times> jsobject) list \<Rightarrow> nat \<Rightarrow> action_result option list \<Rightarrow> jsval + history_action list" where
  "record_actions [] index actionResults = Inr []"
| "record_actions ((name, args') # rest) index actionResults =
     (case array_get actionResults index of
        None \<Rightarrow> Inl TypeError
      | Some r \<Rightarrow>
          (case record_actions rest (index + 1) actionResults of
             Inl e \<Rightarrow> Inl e
           | Inr hs \<Rightarrow>
               Inr (\<lparr>ha_name = name, ha_args = args', ha_success = success r, ha_result = result r\<rparr>
                    # hs)))"

subsection \<open>The two continuations of the completion request\<close>

text \<open>
  The \<^verbatim>\<open>then\<close> callback. It returns the error it threw, if any, together with the state
  it had reached.
\<close>

definition on_completion ::
  "env \<Rightarrow> agent \<Rightarrow> string \<Rightarrow> agent_state \<Rightarrow> jsval option \<times> agent_state" where
  "on_completion env ag responseString st =
     (case JSON_parse env responseString of
        None \<Rightarrow> (None, log ''Failed to parse API response as JSON'' [JStr responseString] st)
      | Some response \<Rightarrow>
          (case run_actions ag (plan_actions response) 0 [] st of
             (actionResults, st1) \<Rightarrow>
               (case getCurrentBrowserState (sanitizeHTML env) (browser st1) of
                  Inl e \<Rightarrow> (Some e, st1)
                | Inr bState \<Rightarrow>
                    (case record_actions (plan_actions response) 0 actionResults of
                       Inl e \<Rightarrow> (Some e, st1)
                     | Inr acts \<Rightarrow>
                         (None,
                          st1\<lparr>history := history st1 @
                                [\<lparr>time = clock env (requests st1),
                                  tabs = bs_tabs bState,
                                  currentTabIndex = bs_currentTabIndex bState,
                                  hr_state = state response,
                                  hr_actions = acts\<rparr>]\<rparr>)))))"

text \<open>The \<^verbatim>\<open>catch\<close> callback: classification, then the awaited \<^verbatim>\<open>this.sleep(delay)\<close>.\<close>

definition on_failure :: "thrown \<Rightarrow> agent_state \<Rightarrow> agent_state" where
  "on_failure error st =
     (case error of
        APIError status message code \<Rightarrow>
          (let st1 = log ''API error'' [JNum status, JStr message,
                        (case code of None \<Rightarrow> JUndefined | Some c \<Rightarrow> JStr c)] st
           in if code = Some ''rate_limit_exceeded'' then
                snd (sleep (JNum 60000) (log ''Rate limit exceeded, waiting for 60 seconds'' [] st1))
              else if code = Some ''token_limit_exceeded'' then
                snd (sleep (JNum 1000)
                       ((log ''Token limit exceeded, stopping execution.'' [] st1)\<lparr>running := False\<rparr>))
              else snd (sleep (JNum 1000) st1))
      | Thrown e \<Rightarrow> snd (sleep (JNum 1000) (log ''Runtime error'' [e] st)))"

text \<open>
  \<^verbatim>\<open>step\<close> rejects only when the messages cannot be generated, which happens before
  the promise chain that carries the \<^verbatim>\<open>catch\<close>.
\<close>

definition step :: "env \<Rightarrow> agent \<Rightarrow> agent_state \<Rightarrow> jsval + agent_state" where
  "step env ag st =
     (case generateMessages env ag st of
        Inl e \<Rightarrow> Inl e
      | Inr msgs \<Rightarrow>
          (let st1 = st\<lparr>requests := requests st + 1\<rparr>
           in case completions env (requests st) of
                Failed error \<Rightarrow> Inr (on_failure error st1)
              | Completion responseString \<Rightarrow>
                  (case on_completion env ag responseString st1 of
                     (thrown, st2) \<Rightarrow>
                       (case thrown of
                          None \<Rightarrow> Inr st2
                        | Some e \<Rightarrow> Inr (on_failure (Thrown e) st2)))))"

section \<open>Lifecycle\<close>

text \<open>
  \<^verbatim>\<open>stop\<close> launches \<^verbatim>\<open>browser.close()\<close> or \<^verbatim>\<open>showDebugPage()\<close> without awaiting it, so
  only the launch belongs to the run.
\<close>

definition stop :: "agent \<Rightarrow> agent_state \<Rightarrow> agent_state" where
  "stop ag st =
     (let st1 = st\<lparr>launched := launched st @
                     [if closeBrowserOnDone ag then BrowserClose else ShowDebugPage]\<rparr>;
          st2 = st1\<lparr>running := False\<rparr>
      in st2\<lparr>events := events st2 @ [''stopped'']\<rparr>)"

text \<open>
  The \<^verbatim>\<open>while\<close> loop of \<^verbatim>\<open>start\<close>. \<^verbatim>\<open>finally\<close> increments \<open>stepCount\<close> whether the step
  resolved or rejected; a rejection then leaves the loop and \<^verbatim>\<open>start\<close> itself.
\<close>

function start_loop ::
  "env \<Rightarrow> agent \<Rightarrow> agent_state \<Rightarrow> nat \<Rightarrow> jsval option \<times> agent_state \<times> nat" where
  "start_loop env ag st stepCount =
     (if running st \<and> int stepCount < maxSteps ag then
        (case step env ag st of
           Inl e \<Rightarrow> (Some e, st, stepCount + 1)
         | Inr st' \<Rightarrow> start_loop env ag st' (stepCount + 1))
      else (None, st, stepCount))"
  by pat_completeness auto

termination start_loop
  by (relation "measure (\<lambda>(env, ag, st, stepCount). nat (maxSteps ag - int stepCount))") auto

declare start_loop.simps [simp del]

definition start :: "env \<Rightarrow> agent \<Rightarrow> agent_state \<Rightarrow> jsval option \<times> agent_state" where
  "start env ag st =
     (if running st then (None, st)
      else
        (case start_loop env ag (st\<lparr>running := True\<rparr>) 0 of
           (thrown, st', stepCount) \<Rightarrow>
             (case thrown of
                Some e \<Rightarrow> (Some e, st')
              | None \<Rightarrow>
                  (let st2 = stop ag st'
                   in (None, st2\<lparr>events := events st2 @ [''completed'']\<rparr>)))))"

section \<open>Observing a run\<close>

text \<open>
  The state in which the dispatch loop stands when it comes to entry \<open>i\<close> of the plan is
  the state the loop itself produces on the first \<open>i\<close> entries. Invocation \<open>i\<close> is what the
  loop does with entry \<open>i\<close> in that state: nothing when the name is not registered or the
  agent is no longer running, otherwise the captured result of the callback.
\<close>

definition state_before ::
  "agent \<Rightarrow> (string \<times> jsobject) list \<Rightarrow> agent_state \<Rightarrow> nat \<Rightarrow> agent_state" where
  "state_before ag acts st i = snd (run_actions ag (take i acts) 0 [] st)"

definition invocation ::
  "agent \<Rightarrow> (string \<times> jsobject) list \<Rightarrow> agent_state \<Rightarrow> nat
     \<Rightarrow> (action_result \<times> agent_state) option" where
  "invocation ag acts st i =
     (case acts ! i of (name, args') \<Rightarrow>
        (case Map_get (actions ag) name of
           None \<Rightarrow> None
         | Some action \<Rightarrow>
             if running (state_before ag acts st i)
             then Some (invoke name action args' (state_before ag acts st i))
             else None))"

text \<open>
  The results of the calls of \<^verbatim>\<open>step\<close> that the loop of \<^verbatim>\<open>start\<close> makes, in order,
  and the pairs of state and \<open>stepCount\<close> with which the loop comes back to its test.
\<close>

function step_results :: "env \<Rightarrow> agent \<Rightarrow> agent_state \<Rightarrow> nat \<Rightarrow> (jsval + agent_state) list" where
  "step_results env ag st stepCount =
     (if running st \<and> int stepCount < maxSteps ag then
        (case step env ag st of
           Inl e \<Rightarrow> [Inl e]
         | Inr st' \<Rightarrow> Inr st' # step_results env ag st' (stepCount + 1))
      else [])"
  by pat_completeness auto

termination step_results
  by (relation "measure (\<lambda>(env, ag, st, stepCount). nat (maxSteps ag - int stepCount))") auto

declare step_results.simps [simp del]

inductive loop_reaches :: "env \<Rightarrow> agent \<Rightarrow> agent_state \<times> nat \<Rightarrow> agent_state \<times> nat \<Rightarrow> bool"
  for env :: env and ag :: agent and origin :: "agent_state \<times> nat" where
  entry: "loop_reaches env ag origin origin"
| iteration:
    "loop_reaches env ag origin (st, stepCount) \<Longrightarrow> running st \<Longrightarrow> int stepCount < maxSteps ag \<Longrightarrow>
     step env ag st = Inr st' \<Longrightarrow> loop_reaches env ag origin (st', stepCount + 1)"

section \<open>Example inputs\<close>

text \<open>
  A session with one visible tab, an agent holding the actions of the class, and a
  \<^verbatim>\<open>JSON.parse\<close> that knows three plans by the text that stands for them.
\<close>

definition example_args :: ConstructorArgs where
  "example_args =
     \<lparr>arg_task = ''find the weather'', arg_closeBrowserOnDone = None, arg_maxSteps = Some 3,
      arg_browser = []\<rparr>"

definition example_tab :: page where
  "example_tab = blank_page\<lparr>url := ''https://example.com'', title := ''Example'', selectors := [''html'', ''#q'']\<rparr>"

definition hidden_tab :: page where
  "hidden_tab = blank_page\<lparr>url := ''https://news.example'', title := ''News'', hidden := True\<rparr>"

definition example_agent :: agent where
  "example_agent = \<lparr>closeBrowserOnDone = True, task = ''find the weather'', maxSteps = 3, actions = class_actions\<rparr>"

definition example_state :: agent_state where
  "example_state = \<lparr>history = [], running = True, browser = [example_tab], console = [], delays = [],
     events = [], launched = [], requests = 0\<rparr>"

definition example_plan_state :: plan_state where
  "example_plan_state = \<lparr>previousGoalEvaluation = Unknown, evaluationReason = [], memory = [], nextGoal = ''search''\<rparr>"

definition failing_plan :: LLMResponse where
  "failing_plan = \<lparr>state = example_plan_state,
      plan_actions = [(''clickElement'', [(''selector'', JStr ''#missing'')]), (''scroll'', [(''amount'', JNum 10)])]\<rparr>"

definition failing_then_done_plan :: LLMResponse where
  "failing_then_done_plan = \<lparr>state = example_plan_state,
      plan_actions = [(''clickElement'', [(''selector'', JStr ''#missing'')]),
                      (''scroll'', [(''amount'', JNum 10)]),
                      (''done'', [])]\<rparr>"

definition early_done_plan :: LLMResponse where
  "early_done_plan = \<lparr>state = example_plan_state,
      plan_actions = [(''done'', []), (''scroll'', [(''amount'', JNum 10)])]\<rparr>"

definition empty_plan :: LLMResponse where
  "empty_plan = \<lparr>state = example_plan_state, plan_actions = []\<rparr>"

definition example_parse :: "string \<Rightarrow> LLMResponse option" where
  "example_parse s =
     (if s = ''failing plan'' then Some failing_plan
      else if s = ''early done'' then Some early_done_plan
      else if s = ''no actions'' then Some empty_plan
      else None)"

definition example_env :: "(nat \<Rightarrow> api_result) \<Rightarrow> env" where
  "example_env script = \<lparr>completions = script, JSON_parse = example_parse,
      sanitizeHTML = (\<lambda>s. s), clock = (\<lambda>n. ''2025-01-01T00:00:00.000Z'')\<rparr>"

definition idle_state :: agent_state where
  "idle_state = example_state\<lparr>running := False\<rparr>"




definition two_tab_state :: agent_state where
  "two_tab_state = example_state\<lparr>browser := [hidden_tab, example_tab]\<rparr>"

definition token_limit :: api_result where
  "token_limit = Failed (APIError 400 ''maximum context length exceeded'' (Some ''token_limit_exceeded''))"

definition echo :: js_function where
  "echo = \<lparr>source_text = ''async echo(a, b) { return [a, b]; }'',
            call = (\<lambda>vs st. (Resolved (JArr [param vs 0, param vs 1]), st))\<rparr>"

definition echo_agent :: agent where
  "echo_agent = \<lparr>closeBrowserOnDone = True, task = ''echo'', maxSteps = 3,
      actions = decorated [(''Returns its two arguments'', ''echo'', echo, Some [''Number'', ''Number''])] []\<rparr>"

definition chatty_env :: env where
  "chatty_env = example_env (\<lambda>n. Completion ''Sure, here is the plan'')"

definition after_unparsable :: agent_state where
  "after_unparsable = log ''Failed to parse API response as JSON'' [JStr ''Sure, here is the plan'']
       (example_state\<lparr>requests := requests example_state + 1\<rparr>)"

definition limited_env :: env where
  "limited_env = example_env (\<lambda>n. if n = 0 then Completion ''Sure, here is the plan'' else token_limit)"

definition after_failing_plan :: agent_state where
  "after_failing_plan = projr (step (example_env (\<lambda>n. Completion ''failing plan'')) example_agent example_state)"

section \<open>Evaluating the conversions\<close>

text \<open>
  The conversions on inputs whose results are known from the language: the printing of
  numbers, the reading of numeric strings, byte buffers with their base64 text, and the
  two actions that rest on them; then the names and parameters under which the class
  registers its methods.
\<close>

lemma number_text_evaluated:
  "number_text 0 = ''0''
   \<and> number_text (- 5) = ''-5''
   \<and> number_text 9007199254740993 = ''9007199254740992''
   \<and> number_text 18446744073709551616 = ''18446744073709552000''
   \<and> number_text 1000000000000000000000 = ''1e+21''
   \<and> number_text 1180591620717411303424 = ''1.1805916207174113e+21''"
  by code_simp

lemma StringToNumber_evaluated:
  "StringToNumber '' 12 '' = Finite 12 0
   \<and> StringToNumber [] = Finite 0 0
   \<and> StringToNumber ''1.5'' = Finite 3 1
   \<and> StringToNumber ''-2.50'' = Finite (- 5) 1
   \<and> StringToNumber ''1e2'' = Finite 100 0
   \<and> StringToNumber ''0x1F'' = Finite 31 0
   \<and> StringToNumber ''0.1'' = Finite 3602879701896397 55
   \<and> StringToNumber ''0.99999999999999999999'' = Finite 1 0
   \<and> StringToNumber ''9007199254740993'' = Finite 9007199254740992 0
   \<and> StringToNumber ''1e400'' = Infinite False
   \<and> StringToNumber ''-Infinity'' = Infinite True
   \<and> StringToNumber ''.'' = NaN
   \<and> StringToNumber ''1e'' = NaN
   \<and> StringToNumber ''-0x10'' = NaN
   \<and> StringToNumber ''12px'' = NaN"
  by code_simp

lemma ToNumber_evaluated:
  "ToNumber (JNum (- 7)) = Finite (- 7) 0
   \<and> ToNumber (JBool True) = Finite 1 0
   \<and> ToNumber JUndefined = NaN
   \<and> ToNumber (JArr []) = Finite 0 0
   \<and> ToNumber (JArr [JNum 2]) = Finite 2 0
   \<and> ToNumber (JArr [JNum 1, JNum 2]) = NaN
   \<and> ToNumber (JObj []) = NaN"
  by code_simp

lemma Buffer_from_evaluated:
  "map_sum id base64 (Buffer_from (JStr ''hello'')) = Inr ''aGVsbG8=''
   \<and> map_sum id base64 (Buffer_from (JStr ''<p>Hi</p>'')) = Inr ''PHA+SGk8L3A+''
   \<and> map_sum id base64 (Buffer_from (JStr [CHR 0xE9])) = Inr ''w6k=''
   \<and> Buffer_from (JArr [JNum 72, JNum 256, JNum (- 1), JStr ''1.9'', JNull]) = Inr [72, 0, 255, 1, 0]
   \<and> Buffer_from (JObj [(''length'', JNum 2), (''0'', JNum 65)]) = Inr [65, 0]
   \<and> Buffer_from (JObj [(''length'', JStr ''2'')]) = Inr []
   \<and> Buffer_from (JObj [(''type'', JStr ''Buffer''), (''data'', JArr [JNum 1])]) = Inr [1]
   \<and> Buffer_from (JObj []) = Inl (ERR_INVALID_ARG_TYPE (JObj []))
   \<and> Buffer_from (JObj [(''valueOf'', JNum 1)]) = Inl (JError ''TypeError: value.valueOf is not a function'')"
  by code_simp

lemma goToDataUrl_evaluated:
  "map url (browser (snd (goToDataUrl (JStr ''hello'') (JStr ''text/plain'') example_state)))
     = [''data:text/plain;base64,aGVsbG8='']
   \<and> goToDataUrl (JNum 5) (JStr ''text/plain'') example_state
     = (Rejected (JError ''TypeError [ERR_INVALID_ARG_TYPE]: The first argument must be of type string or an instance of Buffer, ArrayBuffer, or Array or an Array-like Object. Received type number (5)''),
        example_state)"
  by code_simp

lemma switchTab_evaluated:
  "map hidden (browser (snd (switchTab (JNum 1) two_tab_state))) = [False, True]
   \<and> map hidden (browser (snd (switchTab (JStr ''2'') two_tab_state))) = [True, False]
   \<and> fst (switchTab (JBool True) two_tab_state) = Resolved JUndefined
   \<and> fst (switchTab (JNum 0) two_tab_state) = Rejected (JError ''Tab index 0 out of bounds (1 - 2)'')
   \<and> fst (switchTab (JNum 3) two_tab_state) = Rejected (JError ''Tab index 3 out of bounds (1 - 2)'')
   \<and> fst (switchTab JUndefined two_tab_state)
       = Rejected (JError ''Tab index undefined out of bounds (1 - 2)'')
   \<and> fst (switchTab (JStr ''1.5'') two_tab_state)
       = Rejected (JError ''TypeError: Cannot read properties of undefined (reading bringToFront)'')"
  by code_simp

lemma class_actions_registered:
  "map fst class_actions
     = [''openNewTab'', ''goToUrl'', ''goToDataUrl'', ''done'', ''closeTab'', ''goBack'', ''refresh'',
        ''switchTab'', ''scroll'', ''clickElement'', ''inputText'', ''sendKey'', ''sleep'']
   \<and> map (\<lambda>(name, a). (name, args a)) (filter (\<lambda>(name, a). name \<in> set [''goToDataUrl'', ''switchTab'']) class_actions)
     = [(''goToDataUrl'', [(''content'', Some ''String''), (''contentType'', Some ''String'')]),
        (''switchTab'', [(''index'', Some ''Number'')])]"
  by code_simp

section \<open>Properties of registration\<close>

lemma Map_set_keys: "fst ` set (Map_set m k v) = insert k (fst ` set m)"
  by (induction m k v rule: Map_set.induct) (simp_all add: insert_commute)

lemma Map_set_distinct: "distinct (map fst m) \<Longrightarrow> distinct (map fst (Map_set m k v))"
  by (induction m k v rule: Map_set.induct) (auto simp: Map_set_keys)

lemma decorated_distinct:
  "distinct (map fst pending) \<Longrightarrow> distinct (map fst (decorated ds pending))"
  unfolding decorated_def
  by (induction ds arbitrary: pending) (auto simp: DefineAction_def Let_def Map_set_distinct)

lemma Map_set_fresh: "k \<notin> set (map fst m) \<Longrightarrow> Map_set m k v = m @ [(k, v)]"
  by (induction m k v rule: Map_set.induct) auto

lemma Map_delete_head:
  "k \<notin> set (map fst rest) \<Longrightarrow> Map_delete ((k, v) # rest) k = rest"
  by (induction rest) (auto simp: Map_delete_def)

lemma register_pending_distinct:
  "distinct (map fst (acts @ pending)) \<Longrightarrow> register_pending acts pending = (acts @ pending, [])"
proof (induction pending arbitrary: acts)
  case Nil
  then show ?case by simp
next
  case (Cons e pending)
  obtain k v where e: "e = (k, v)" by (cases e)
  from Cons.prems e have fresh: "k \<notin> set (map fst acts)" and rest: "k \<notin> set (map fst pending)"
    by auto
  have "register_pending acts (e # pending) = register_pending (acts @ [(k, v)]) pending"
    using e fresh rest by (simp add: Map_set_fresh Map_delete_head)
  also have "\<dots> = ((acts @ [(k, v)]) @ pending, [])"
    using Cons.prems e by (intro Cons.IH) simp
  finally show ?case using e by simp
qed

lemma Map_get_registered: "k \<in> set (map fst m) \<Longrightarrow> \<exists>a. Map_get m k = Some a"
  by (cases "map_of m k") (auto simp: Map_get_def map_of_eq_None_iff)

lemma Map_get_the: "k \<in> set (map fst m) \<Longrightarrow> Map_get m k = Some (the (Map_get m k))"
  by (cases "map_of m k") (auto simp: Map_get_def map_of_eq_None_iff)

text \<open>
  C10. Registration is consumed by construction. Whatever decorators ran when the class
  was defined, the first agent constructed afterwards holds exactly the table they
  built, the table is empty once that constructor has returned, and an agent
  constructed from the emptied table has an empty registry.
\<close>

theorem registration_consumed:
  "actions (fst (fst (constructor a (decorated ds [])))) = decorated ds []
   \<and> snd (constructor a (decorated ds [])) = []
   \<and> actions (fst (fst (constructor a' (snd (constructor a (decorated ds [])))))) = []"
proof -
  have d: "distinct (map fst ([] @ decorated ds []))"
    using decorated_distinct [of "[]" ds] by simp
  have r: "register_pending [] (decorated ds []) = (decorated ds [], [])"
    using register_pending_distinct [OF d] by simp
  show ?thesis by (simp add: constructor_def r)
qed

theorem registration_consumed_witness:
  "actions (fst (fst (constructor example_args class_actions))) = class_actions
   \<and> snd (constructor example_args class_actions) = []
   \<and> actions (fst (fst (constructor example_args (snd (constructor example_args class_actions))))) = []"
  unfolding class_actions_def by (rule registration_consumed)

section \<open>Properties of the dispatch loop\<close>

lemma array_get_set: "array_get (array_set xs i v) j = (if j = i then Some v else array_get xs j)"
  by (auto simp: array_get_def array_set_def nth_append)

lemma length_array_set: "length xs \<le> i \<Longrightarrow> length (array_set xs i v) = Suc i"
  by (simp add: array_set_def)

lemma array_get_beyond: "length xs \<le> j \<Longrightarrow> array_get xs j = None"
  by (simp add: array_get_def)

lemma running_log [simp]: "running (log t vs st) = running st"
  by (simp add: log_def)

lemma run_actions_state:
  "snd (run_actions ag acts i rs st) = snd (run_actions ag acts j rs' st)"
proof (induction acts arbitrary: i rs j rs' st)
  case Nil
  show ?case by simp
next
  case (Cons a acts)
  obtain name args' where a: "a = (name, args')" by (cases a)
  show ?case
  proof (cases "running st")
    case False
    then show ?thesis by (simp add: a)
  next
    case True
    show ?thesis
    proof (cases "Map_get (actions ag) name")
      case None
      then show ?thesis using True a Cons.IH by simp
    next
      case (Some action)
      obtain r st' where inv: "invoke name action args' st = (r, st')"
        by (cases "invoke name action args' st")
      show ?thesis using True a Some inv Cons.IH [of "i + 1" "array_set rs i r" st' "j + 1" "array_set rs' j r"]
        by simp
    qed
  qed
qed

lemma run_actions_below:
  "j < i \<Longrightarrow> array_get (fst (run_actions ag acts i rs st)) j = array_get rs j"
proof (induction acts arbitrary: i rs st)
  case Nil
  show ?case by simp
next
  case (Cons a acts)
  obtain name args' where a: "a = (name, args')" by (cases a)
  show ?case
  proof (cases "running st")
    case False
    then show ?thesis by (simp add: a)
  next
    case True
    show ?thesis
    proof (cases "Map_get (actions ag) name")
      case None
      then show ?thesis using True a Cons.IH [of "i + 1"] Cons.prems by simp
    next
      case (Some action)
      obtain r st' where inv: "invoke name action args' st = (r, st')"
        by (cases "invoke name action args' st")
      have "array_get (fst (run_actions ag acts (i + 1) (array_set rs i r) st')) j
            = array_get (array_set rs i r) j"
        using Cons.IH [of "i + 1"] Cons.prems by simp
      then show ?thesis using True a Some inv Cons.prems by (simp add: array_get_set)
    qed
  qed
qed

lemma state_before_0 [simp]: "state_before ag acts st 0 = st"
  by (simp add: state_before_def)

lemma state_before_stopped:
  "\<not> running st \<Longrightarrow> \<not> running (state_before ag (a # acts) st (Suc k))"
  by (cases a) (simp add: state_before_def)

lemma state_before_skip:
  "running st \<Longrightarrow> Map_get (actions ag) name = None \<Longrightarrow>
   state_before ag ((name, args') # acts) st (Suc k)
     = state_before ag acts (log ''Action not found'' [JStr name] st) k"
  using run_actions_state [of ag "take k acts" 1 "[]" _ 0 "[]"]
  by (simp add: state_before_def)

lemma state_before_invoke:
  "running st \<Longrightarrow> Map_get (actions ag) name = Some action \<Longrightarrow>
   state_before ag ((name, args') # acts) st (Suc k)
     = state_before ag acts (snd (invoke name action args' st)) k"
  using run_actions_state [of ag "take k acts" 1 _ _ 0 "[]"]
  by (simp add: state_before_def split: prod.splits)

lemma run_actions_slot:
  "length rs \<le> i \<Longrightarrow> k < length acts \<Longrightarrow>
   array_get (fst (run_actions ag acts i rs st)) (i + k) = map_option fst (invocation ag acts st k)"
proof (induction acts arbitrary: i rs st k)
  case Nil
  then show ?case by simp
next
  case (Cons a acts)
  obtain name args' where a: "a = (name, args')" by (cases a)
  show ?case
  proof (cases "running st")
    case False
    have "invocation ag (a # acts) st k = None"
    proof (cases k)
      case 0
      then show ?thesis using False by (simp add: invocation_def a split: option.splits)
    next
      case (Suc k')
      then show ?thesis using state_before_stopped [OF False, of ag a acts k']
        by (simp add: invocation_def split: option.splits prod.splits)
    qed
    then show ?thesis using False a Cons.prems by (simp add: array_get_beyond)
  next
    case True
    show ?thesis
    proof (cases "Map_get (actions ag) name")
      case None
      show ?thesis
      proof (cases k)
        case 0
        have "array_get (fst (run_actions ag acts (i + 1) rs (log ''Action not found'' [JStr name] st))) i
              = array_get rs i"
          by (rule run_actions_below) simp
        then show ?thesis using 0 True a None Cons.prems
          by (simp add: invocation_def array_get_beyond)
      next
        case (Suc k')
        have "array_get (fst (run_actions ag acts (i + 1) rs (log ''Action not found'' [JStr name] st))) (i + 1 + k')
              = map_option fst (invocation ag acts (log ''Action not found'' [JStr name] st) k')"
          using Cons.prems Suc by (intro Cons.IH) simp_all
        moreover have "invocation ag (a # acts) st k
              = invocation ag acts (log ''Action not found'' [JStr name] st) k'"
          using Suc a state_before_skip [OF True None]
          by (simp add: invocation_def split: prod.splits option.splits)
        ultimately show ?thesis using Suc True a None by simp
      qed
    next
      case (Some action)
      obtain r st' where inv: "invoke name action args' st = (r, st')"
        by (cases "invoke name action args' st")
      show ?thesis
      proof (cases k)
        case 0
        have "array_get (fst (run_actions ag acts (i + 1) (array_set rs i r) st')) i
              = array_get (array_set rs i r) i"
          by (rule run_actions_below) simp
        then show ?thesis using 0 True a Some inv
          by (simp add: invocation_def array_get_set)
      next
        case (Suc k')
        have "array_get (fst (run_actions ag acts (i + 1) (array_set rs i r) st')) (i + 1 + k')
              = map_option fst (invocation ag acts st' k')"
          using Cons.prems Suc by (intro Cons.IH) (simp_all add: length_array_set)
        moreover have "invocation ag (a # acts) st k = invocation ag acts st' k'"
          using Suc a state_before_invoke [OF True Some, of args'] inv
          by (simp add: invocation_def split: prod.splits option.splits)
        ultimately show ?thesis using Suc True a Some inv by simp
      qed
    qed
  qed
qed

lemma record_actions_slots:
  "record_actions acts i res = Inr hs \<Longrightarrow>
   length hs = length acts \<and>
   (\<forall>k < length acts. \<exists>r. array_get res (i + k) = Some r \<and>
      hs ! k = \<lparr>ha_name = fst (acts ! k), ha_args = snd (acts ! k),
                ha_success = success r, ha_result = result r\<rparr>)"
proof (induction acts arbitrary: i hs)
  case Nil
  then show ?case by simp
next
  case (Cons a acts)
  obtain name args' where a: "a = (name, args')" by (cases a)
  from Cons.prems a obtain r hs' where
    r: "array_get res i = Some r" and
    hs': "record_actions acts (i + 1) res = Inr hs'" and
    hs: "hs = \<lparr>ha_name = name, ha_args = args', ha_success = success r, ha_result = result r\<rparr> # hs'"
    by (auto split: option.splits sum.splits)
  from Cons.IH [OF hs'] have len: "length hs' = length acts"
    and slots: "\<forall>k < length acts. \<exists>r. array_get res (i + 1 + k) = Some r \<and>
      hs' ! k = \<lparr>ha_name = fst (acts ! k), ha_args = snd (acts ! k),
                ha_success = success r, ha_result = result r\<rparr>"
    by simp_all
  show ?case
  proof (intro conjI allI impI)
    show "length hs = length (a # acts)" using hs len by simp
  next
    fix k assume k: "k < length (a # acts)"
    show "\<exists>r. array_get res (i + k) = Some r \<and>
      hs ! k = \<lparr>ha_name = fst ((a # acts) ! k), ha_args = snd ((a # acts) ! k),
                ha_success = success r, ha_result = result r\<rparr>"
    proof (cases k)
      case 0
      then show ?thesis using r hs a by simp
    next
      case (Suc k')
      then show ?thesis using slots k hs by simp
    qed
  qed
qed

lemma state_before_all:
  "state_before ag acts st (length acts) = snd (run_actions ag acts 0 [] st)"
  by (simp add: state_before_def)

lemma record_actions_hole:
  "k < length acts \<Longrightarrow> array_get res (i + k) = None \<Longrightarrow> record_actions acts i res = Inl TypeError"
proof (induction acts arbitrary: i k)
  case Nil
  then show ?case by simp
next
  case (Cons a acts)
  obtain name args' where a: "a = (name, args')" by (cases a)
  show ?case
  proof (cases k)
    case 0
    then show ?thesis using Cons.prems a by simp
  next
    case (Suc k')
    then have "record_actions acts (i + 1) res = Inl TypeError"
      using Cons.prems by (intro Cons.IH [of k']) simp_all
    then show ?thesis using a by (simp split: option.splits)
  qed
qed

lemma record_actions_filled:
  "(\<forall>k < length acts. array_get res (i + k) \<noteq> None) \<Longrightarrow> \<exists>hs. record_actions acts i res = Inr hs"
proof (induction acts arbitrary: i)
  case Nil
  then show ?case by simp
next
  case (Cons a acts)
  obtain name args' where a: "a = (name, args')" by (cases a)
  from Cons.prems have "array_get res (i + 0) \<noteq> None" by blast
  then obtain r where r: "array_get res i = Some r" by auto
  have "\<forall>k < length acts. array_get res (i + 1 + k) \<noteq> None"
  proof (intro allI impI)
    fix k assume "k < length acts"
    then have "Suc k < length (a # acts)" by simp
    with Cons.prems have "array_get res (i + Suc k) \<noteq> None" by blast
    then show "array_get res (i + 1 + k) \<noteq> None" by simp
  qed
  from Cons.IH [OF this] obtain hs where "record_actions acts (i + 1) res = Inr hs" by blast
  then show ?case using a r by simp
qed

lemma state_before_Suc:
  "i < length acts \<Longrightarrow> running (state_before ag acts st i) \<Longrightarrow>
   Map_get (actions ag) (fst (acts ! i)) = Some act \<Longrightarrow>
   state_before ag acts st (Suc i)
     = snd (invoke (fst (acts ! i)) act (snd (acts ! i)) (state_before ag acts st i))"
proof (induction acts arbitrary: st i)
  case Nil
  then show ?case by simp
next
  case (Cons a acts)
  obtain name args' where a: "a = (name, args')" by (cases a)
  show ?case
  proof (cases i)
    case 0
    with Cons.prems a show ?thesis
      by (simp add: state_before_def split: prod.splits)
  next
    case (Suc k)
    have run: "running st"
    proof (rule ccontr)
      assume "\<not> running st"
      from state_before_stopped [OF this, of ag a acts k] Cons.prems(2) Suc show False by simp
    qed
    show ?thesis
    proof (cases "Map_get (actions ag) name")
      case None
      from Cons.prems Suc a state_before_skip [OF run None, of args' acts]
      show ?thesis by (simp add: Cons.IH)
    next
      case (Some action)
      from Cons.prems Suc a state_before_invoke [OF run Some, of args' acts]
      show ?thesis by (simp add: Cons.IH)
    qed
  qed
qed

lemma all_below_three: "P 0 \<Longrightarrow> P (Suc 0) \<Longrightarrow> P (Suc (Suc 0)) \<Longrightarrow> \<forall>j < Suc (Suc (Suc 0)). P j"
  by (auto simp: less_Suc_eq)

text \<open>
  C1, as the code has it. With declared parameters \<open>(a, b)\<close> and plan arguments
  \<open>{b: 2, a: 1}\<close> the callback receives \<open>(2, 1)\<close>, not \<open>(1, 2)\<close>: the declared names are
  read from the method's text and shown to the model, but the call binds the values of
  the plan's \<^verbatim>\<open>args\<close> object in that object's own order.
\<close>

theorem echo_receives_plan_order:
  "map fst (args (the (Map_get (actions echo_agent) ''echo''))) = [''a'', ''b'']
   \<and> fst (run_actions echo_agent [(''echo'', [(''b'', JNum 2), (''a'', JNum 1)])] 0 [] example_state)
       = [Some \<lparr>success = True, result = JArr [JNum 2, JNum 1]\<rparr>]
   \<and> fst (run_actions echo_agent [(''echo'', [(''b'', JNum 2), (''a'', JNum 1)])] 0 [] example_state)
       \<noteq> [Some \<lparr>success = True, result = JArr [JNum 1, JNum 2]\<rparr>]"
  by code_simp

text \<open>
  C1, amended. For every registered action and every plan entry that resolves to it while
  the agent is running, the callback receives the values of the entry's \<^verbatim>\<open>args\<close> object
  in the order the object lists them, its result is captured in the entry's slot and
  the loop goes on with the next entry; the declared parameter list plays no part in
  the call.
\<close>

theorem arguments_bound_in_plan_order:
  assumes "Map_get (actions ag) name = Some act" and "running st"
  shows "run_actions ag ((name, args') # rest) i results st
       = (case capture name
                (callback act (map snd args')
                   (log ''Executing action with args'' [JStr name, JObj args'] st)) of
            (r, st') \<Rightarrow> run_actions ag rest (i + 1) (array_set results i r) st')
    \<and> invoke name (act\<lparr>args := declared\<rparr>) args' st = invoke name act args' st"
  using assms by (simp add: invoke_def Object_values_def)

theorem arguments_bound_in_plan_order_witness:
  "run_actions echo_agent [(''echo'', [(''b'', JNum 2), (''a'', JNum 1)])] 0 [] example_state
       = (case capture ''echo''
                (callback (the (Map_get (actions echo_agent) ''echo'')) (map snd [(''b'', JNum 2), (''a'', JNum 1)])
                   (log ''Executing action with args'' [JStr ''echo'', JObj [(''b'', JNum 2), (''a'', JNum 1)]] example_state)) of
            (r, st') \<Rightarrow> run_actions echo_agent [] (0 + 1) (array_set [] 0 r) st')
    \<and> invoke ''echo'' ((the (Map_get (actions echo_agent) ''echo''))\<lparr>args := [(''b'', None), (''a'', None)]\<rparr>)
          [(''b'', JNum 2), (''a'', JNum 1)] example_state
        = invoke ''echo'' (the (Map_get (actions echo_agent) ''echo'')) [(''b'', JNum 2), (''a'', JNum 1)] example_state"
proof -
  have names: "map fst (actions echo_agent) = [''echo'']"
    by (simp add: echo_agent_def decorated_def DefineAction_def Let_def)
  have act: "Map_get (actions echo_agent) ''echo'' = Some (the (Map_get (actions echo_agent) ''echo''))"
    by (rule Map_get_the) (simp add: names)
  have run: "running example_state"
    by (simp add: example_state_def)
  show ?thesis by (rule arguments_bound_in_plan_order [OF act run])
qed

text \<open>
  C3. Let invocation \<open>i\<close> of a plan be issued and let its callback fail with an error.
  Then slot \<open>i\<close> of the results holds the failure with that error, and the loop goes on
  to entry \<open>i + 1\<close> from the state the callback left, with nothing but the log line of the
  failure added: the failure neither ends the loop nor clears the running flag. Every
  later slot holds what its own invocation captured, and a later entry whose name is
  registered and that is reached while the agent is running is invoked, whatever
  happened at \<open>i\<close>. When every invocation of the plan is issued, the record built from
  the results has one entry per plan entry, entry \<open>i\<close> being the failure and every
  entry carrying the success flag and result of its own invocation.
\<close>

theorem failure_isolated:
  assumes i: "i < length acts"
    and act: "Map_get (actions ag) (fst (acts ! i)) = Some act"
    and issued: "running (state_before ag acts st i)"
    and fails: "callback act (Object_values (snd (acts ! i)))
                  (log ''Executing action with args'' [JStr (fst (acts ! i)), JObj (snd (acts ! i))]
                     (state_before ag acts st i)) = (Rejected error, s)"
  shows "array_get (fst (run_actions ag acts 0 [] st)) i = Some \<lparr>success = False, result = error\<rparr>
    \<and> state_before ag acts st (Suc i) = log ''Failed to execute action'' [JStr (fst (acts ! i)), error] s
    \<and> (\<forall>j. i < j \<and> j < length acts \<longrightarrow>
          array_get (fst (run_actions ag acts 0 [] st)) j = map_option fst (invocation ag acts st j)
          \<and> (\<forall>a. Map_get (actions ag) (fst (acts ! j)) = Some a \<and> running (state_before ag acts st j) \<longrightarrow>
                 invocation ag acts st j
                   = Some (invoke (fst (acts ! j)) a (snd (acts ! j)) (state_before ag acts st j))))
    \<and> ((\<forall>j < length acts. invocation ag acts st j \<noteq> None) \<longrightarrow>
         (\<exists>hs. record_actions acts 0 (fst (run_actions ag acts 0 [] st)) = Inr hs
            \<and> length hs = length acts
            \<and> ha_success (hs ! i) = False \<and> ha_result (hs ! i) = error
            \<and> (\<forall>j < length acts. \<exists>r s'. invocation ag acts st j = Some (r, s')
                  \<and> ha_success (hs ! j) = success r \<and> ha_result (hs ! j) = result r)))"
proof -
  define res where "res = fst (run_actions ag acts 0 [] st)"
  have slot: "array_get res j = map_option fst (invocation ag acts st j)" if "j < length acts" for j
    using run_actions_slot [of "[]" 0 j acts ag st] that by (simp add: res_def)
  have inv: "invoke (fst (acts ! i)) act (snd (acts ! i)) (state_before ag acts st i)
        = (\<lparr>success = False, result = error\<rparr>,
           log ''Failed to execute action'' [JStr (fst (acts ! i)), error] s)"
    using fails by (simp add: invoke_def capture_def)
  have "invocation ag acts st i
        = Some (invoke (fst (acts ! i)) act (snd (acts ! i)) (state_before ag acts st i))"
    using issued act by (simp add: invocation_def case_prod_beta)
  then have first: "array_get res i = Some \<lparr>success = False, result = error\<rparr>"
    using slot [OF i] inv by simp
  have after: "state_before ag acts st (Suc i)
        = log ''Failed to execute action'' [JStr (fst (acts ! i)), error] s"
    using state_before_Suc [OF i issued act] inv by simp
  have later: "invocation ag acts st j
        = Some (invoke (fst (acts ! j)) a (snd (acts ! j)) (state_before ag acts st j))"
    if "Map_get (actions ag) (fst (acts ! j)) = Some a" "running (state_before ag acts st j)" for j a
    using that by (simp add: invocation_def case_prod_beta)
  have recorded: "\<exists>hs. record_actions acts 0 res = Inr hs
            \<and> length hs = length acts
            \<and> ha_success (hs ! i) = False \<and> ha_result (hs ! i) = error
            \<and> (\<forall>j < length acts. \<exists>r s'. invocation ag acts st j = Some (r, s')
                  \<and> ha_success (hs ! j) = success r \<and> ha_result (hs ! j) = result r)"
    if all: "\<forall>j < length acts. invocation ag acts st j \<noteq> None"
  proof -
    have "\<forall>k < length acts. array_get res (0 + k) \<noteq> None"
      using all slot by simp
    from record_actions_filled [OF this] obtain hs where hs: "record_actions acts 0 res = Inr hs"
      by blast
    note slots = record_actions_slots [OF hs]
    have len: "length hs = length acts" using slots by simp
    have entry: "\<exists>r s'. invocation ag acts st j = Some (r, s')
                  \<and> ha_success (hs ! j) = success r \<and> ha_result (hs ! j) = result r"
      if j: "j < length acts" for j
    proof -
      from slots j obtain r where r: "array_get res j = Some r"
        and h: "hs ! j = \<lparr>ha_name = fst (acts ! j), ha_args = snd (acts ! j),
                ha_success = success r, ha_result = result r\<rparr>"
        by auto
      from r slot [OF j] obtain s' where "invocation ag acts st j = Some (r, s')"
        by (cases "invocation ag acts st j") auto
      with h show ?thesis by simp
    qed
    from slots i first have "ha_success (hs ! i) = False \<and> ha_result (hs ! i) = error"
      by auto
    with hs len entry show ?thesis by blast
  qed
  from first after slot later recorded show ?thesis unfolding res_def by blast
qed


theorem failure_isolated_witness:
  "array_get (fst (run_actions example_agent (plan_actions failing_then_done_plan) 0 [] example_state)) 0
     = Some \<lparr>success = False, result = JError ''Waiting for selector failed: #missing''\<rparr>
   \<and> state_before example_agent (plan_actions failing_then_done_plan) example_state (Suc 0)
     = log ''Failed to execute action'' [JStr ''clickElement'', JError ''Waiting for selector failed: #missing'']
         (log ''Clicking element'' [JStr ''#missing'']
            (log ''Executing action with args''
               [JStr ''clickElement'', JObj [(''selector'', JStr ''#missing'')]] example_state))
   \<and> array_get (fst (run_actions example_agent (plan_actions failing_then_done_plan) 0 [] example_state)) 1
     = map_option fst (invocation example_agent (plan_actions failing_then_done_plan) example_state 1)
   \<and> invocation example_agent (plan_actions failing_then_done_plan) example_state 1
     = Some (invoke ''scroll'' (the (Map_get (actions example_agent) ''scroll'')) [(''amount'', JNum 10)]
               (state_before example_agent (plan_actions failing_then_done_plan) example_state 1))
   \<and> array_get (fst (run_actions example_agent (plan_actions failing_then_done_plan) 0 [] example_state)) 2
     = map_option fst (invocation example_agent (plan_actions failing_then_done_plan) example_state 2)
   \<and> invocation example_agent (plan_actions failing_then_done_plan) example_state 2
     = Some (invoke ''done'' (the (Map_get (actions example_agent) ''done'')) []
               (state_before example_agent (plan_actions failing_then_done_plan) example_state 2))
   \<and> (\<exists>hs. record_actions (plan_actions failing_then_done_plan) 0
               (fst (run_actions example_agent (plan_actions failing_then_done_plan) 0 [] example_state)) = Inr hs
         \<and> length hs = length (plan_actions failing_then_done_plan)
         \<and> ha_success (hs ! 0) = False
         \<and> ha_result (hs ! 0) = JError ''Waiting for selector failed: #missing''
         \<and> map ha_success hs = [False, True, True])"
proof -
  let ?acts = "plan_actions failing_then_done_plan"
  have acts: "?acts = [(''clickElement'', [(''selector'', JStr ''#missing'')]),
                      (''scroll'', [(''amount'', JNum 10)]), (''done'', [])]"
    by (simp add: failing_then_done_plan_def)
  have len: "length ?acts = Suc (Suc (Suc 0))"
    by (simp add: acts)
  have names: "map fst (actions example_agent)
      = [''openNewTab'', ''goToUrl'', ''goToDataUrl'', ''done'', ''closeTab'', ''goBack'', ''refresh'',
         ''switchTab'', ''scroll'', ''clickElement'', ''inputText'', ''sendKey'', ''sleep'']"
    by (simp add: example_agent_def class_actions_def decorated_def class_methods_def
        DefineAction_def Let_def)
  have i: "0 < length ?acts"
    by (simp add: len)
  have act: "Map_get (actions example_agent) (fst (?acts ! 0))
      = Some (the (Map_get (actions example_agent) (fst (?acts ! 0))))"
    by (rule Map_get_the) (simp add: names acts)
  have issued: "running (state_before example_agent ?acts example_state 0)"
    by (simp add: example_state_def)
  have fails: "callback (the (Map_get (actions example_agent) (fst (?acts ! 0))))
                  (Object_values (snd (?acts ! 0)))
                  (log ''Executing action with args'' [JStr (fst (?acts ! 0)), JObj (snd (?acts ! 0))]
                     (state_before example_agent ?acts example_state 0))
               = (Rejected (JError ''Waiting for selector failed: #missing''),
                  log ''Clicking element'' [JStr ''#missing'']
                    (log ''Executing action with args''
                       [JStr ''clickElement'', JObj [(''selector'', JStr ''#missing'')]] example_state))"
    by code_simp
  have all: "\<forall>j < length ?acts. invocation example_agent ?acts example_state j \<noteq> None"
    unfolding len by (rule all_below_three; code_simp)
  have scroll: "Map_get (actions example_agent) (fst (?acts ! 1))
      = Some (the (Map_get (actions example_agent) ''scroll''))"
    using Map_get_the [of "''scroll''" "actions example_agent"] by (simp add: names acts)
  have scroll_reached: "running (state_before example_agent ?acts example_state 1)"
    by code_simp
  have finish: "Map_get (actions example_agent) (fst (?acts ! 2))
      = Some (the (Map_get (actions example_agent) ''done''))"
    using Map_get_the [of "''done''" "actions example_agent"] by (simp add: names acts)
  have finish_reached: "running (state_before example_agent ?acts example_state 2)"
    by code_simp
  have one: "0 < (1::nat) \<and> 1 < length ?acts" and two: "0 < (2::nat) \<and> 2 < length ?acts"
    by (simp_all add: len)
  have recorded: "record_actions ?acts 0 (fst (run_actions example_agent ?acts 0 [] example_state))
      = Inr [\<lparr>ha_name = ''clickElement'', ha_args = [(''selector'', JStr ''#missing'')],
                ha_success = False, ha_result = JError ''Waiting for selector failed: #missing''\<rparr>,
             \<lparr>ha_name = ''scroll'', ha_args = [(''amount'', JNum 10)],
                ha_success = True, ha_result = JNull\<rparr>,
             \<lparr>ha_name = ''done'', ha_args = [], ha_success = True, ha_result = JNull\<rparr>]"
    by code_simp
  note general = failure_isolated [OF i act issued fails]
  from general have first: "array_get (fst (run_actions example_agent ?acts 0 [] example_state)) 0
      = Some \<lparr>success = False, result = JError ''Waiting for selector failed: #missing''\<rparr>"
    and after: "state_before example_agent ?acts example_state (Suc 0)
      = log ''Failed to execute action'' [JStr (fst (?acts ! 0)), JError ''Waiting for selector failed: #missing'']
         (log ''Clicking element'' [JStr ''#missing'']
            (log ''Executing action with args''
               [JStr ''clickElement'', JObj [(''selector'', JStr ''#missing'')]] example_state))"
    by simp_all
  from general one scroll scroll_reached
  have s1: "array_get (fst (run_actions example_agent ?acts 0 [] example_state)) 1
     = map_option fst (invocation example_agent ?acts example_state 1)
   \<and> invocation example_agent ?acts example_state 1
     = Some (invoke (fst (?acts ! 1)) (the (Map_get (actions example_agent) ''scroll'')) (snd (?acts ! 1))
               (state_before example_agent ?acts example_state 1))"
    by blast
  from general two finish finish_reached
  have s2: "array_get (fst (run_actions example_agent ?acts 0 [] example_state)) 2
     = map_option fst (invocation example_agent ?acts example_state 2)
   \<and> invocation example_agent ?acts example_state 2
     = Some (invoke (fst (?acts ! 2)) (the (Map_get (actions example_agent) ''done'')) (snd (?acts ! 2))
               (state_before example_agent ?acts example_state 2))"
    by blast
  from general all obtain hs where
    hs: "record_actions ?acts 0 (fst (run_actions example_agent ?acts 0 [] example_state)) = Inr hs"
    and rest: "length hs = length ?acts" "ha_success (hs ! 0) = False"
      "ha_result (hs ! 0) = JError ''Waiting for selector failed: #missing''"
    by blast
  have third: "\<exists>hs. record_actions ?acts 0 (fst (run_actions example_agent ?acts 0 [] example_state)) = Inr hs
         \<and> length hs = length ?acts
         \<and> ha_success (hs ! 0) = False
         \<and> ha_result (hs ! 0) = JError ''Waiting for selector failed: #missing''
         \<and> map ha_success hs = [False, True, True]"
    using hs rest recorded by auto
  have nth: "fst (?acts ! 0) = ''clickElement''" "fst (?acts ! 1) = ''scroll''" "snd (?acts ! 1) = [(''amount'', JNum 10)]"
    "fst (?acts ! 2) = ''done''" "snd (?acts ! 2) = []"
    by (simp_all add: acts)
  from first after s1 s2 third show ?thesis
    unfolding nth by (intro conjI) simp_all
qed

section \<open>Properties of a step\<close>

lemma history_on_failure [simp]: "history (on_failure e st) = history st"
  by (simp add: on_failure_def sleep_def log_def Let_def split: thrown.splits)

text \<open>
  C2. Let a step receive a completion that parses as a plan, and let it append a record
  to the history as the dispatch loop left it. Then the record has as many action
  entries as the plan has actions, and entry \<open>i\<close> carries the name and arguments of plan
  entry \<open>i\<close> together with the success flag and result captured for invocation \<open>i\<close>.
\<close>

theorem history_record_aligned:
  assumes step: "step env ag st = Inr st'"
    and resp: "completions env (requests st) = Completion text"
    and plan: "JSON_parse env text = Some plan"
    and app: "history st'
        = history (state_before ag (plan_actions plan) (st\<lparr>requests := requests st + 1\<rparr>)
                     (length (plan_actions plan))) @ [rec]"
  shows "length (hr_actions rec) = length (plan_actions plan)
    \<and> (\<forall>i < length (plan_actions plan).
          \<exists>r s. invocation ag (plan_actions plan) (st\<lparr>requests := requests st + 1\<rparr>) i = Some (r, s)
            \<and> hr_actions rec ! i
                = \<lparr>ha_name = fst (plan_actions plan ! i), ha_args = snd (plan_actions plan ! i),
                   ha_success = success r, ha_result = result r\<rparr>)"
proof -
  define st1 where "st1 = st\<lparr>requests := requests st + 1\<rparr>"
  define acts where "acts = plan_actions plan"
  obtain res s1 where run: "run_actions ag acts 0 [] st1 = (res, s1)"
    by (cases "run_actions ag acts 0 [] st1")
  have s1: "state_before ag acts st1 (length acts) = s1"
    using run by (simp add: state_before_all)
  have app': "history st' = history s1 @ [rec]"
    using app s1 by (simp add: st1_def acts_def)
  from step obtain msgs where gen: "generateMessages env ag st = Inr msgs"
    by (auto simp: step_def split: sum.splits)
  have st': "(case on_completion env ag text st1 of
                 (thrown, st2) \<Rightarrow>
                   (case thrown of None \<Rightarrow> Inr st2
                    | Some e \<Rightarrow> Inr (on_failure (Thrown e) st2))) = (Inr st' :: jsval + agent_state)"
    using step gen resp by (simp add: step_def st1_def Let_def)
  obtain bState hs where
    snap: "getCurrentBrowserState (sanitizeHTML env) (browser s1) = Inr bState" and
    hs: "record_actions acts 0 res = Inr hs" and
    rec: "hr_actions rec = hs"
  proof (cases "getCurrentBrowserState (sanitizeHTML env) (browser s1)")
    case (Inl e)
    then have "history st' = history s1"
      using st' plan run by (auto simp: on_completion_def acts_def)
    with app' show ?thesis by simp
  next
    case (Inr bState)
    show ?thesis
    proof (cases "record_actions acts 0 res")
      case (Inl e)
      then have "history st' = history s1"
        using st' plan run Inr by (auto simp: on_completion_def acts_def)
      with app' show ?thesis by simp
    next
      case hs: (Inr hs)
      then have "history st' = history s1 @
                [\<lparr>time = clock env (requests s1), tabs = bs_tabs bState,
                  currentTabIndex = bs_currentTabIndex bState, hr_state = state plan,
                  hr_actions = hs\<rparr>]"
        using st' plan run Inr by (auto simp: on_completion_def acts_def)
      with app' have "hr_actions rec = hs" by auto
      with Inr hs that show ?thesis by blast
    qed
  qed
  from record_actions_slots [OF hs] have len: "length hs = length acts"
    and slots: "\<forall>k < length acts. \<exists>r. array_get res (0 + k) = Some r \<and>
        hs ! k = \<lparr>ha_name = fst (acts ! k), ha_args = snd (acts ! k),
                  ha_success = success r, ha_result = result r\<rparr>"
    by simp_all
  have "\<forall>i < length acts.
          \<exists>r s. invocation ag acts st1 i = Some (r, s)
            \<and> hs ! i = \<lparr>ha_name = fst (acts ! i), ha_args = snd (acts ! i),
                        ha_success = success r, ha_result = result r\<rparr>"
  proof (intro allI impI)
    fix i assume i: "i < length acts"
    from slots i obtain r where r: "array_get res (0 + i) = Some r"
      and h: "hs ! i = \<lparr>ha_name = fst (acts ! i), ha_args = snd (acts ! i),
                        ha_success = success r, ha_result = result r\<rparr>"
      by blast
    have "array_get (fst (run_actions ag acts 0 [] st1)) (0 + i)
            = map_option fst (invocation ag acts st1 i)"
      using i by (intro run_actions_slot) simp_all
    with r run have "map_option fst (invocation ag acts st1 i) = Some r" by simp
    then obtain s where "invocation ag acts st1 i = Some (r, s)" by auto
    with h show "\<exists>r s. invocation ag acts st1 i = Some (r, s)
            \<and> hs ! i = \<lparr>ha_name = fst (acts ! i), ha_args = snd (acts ! i),
                        ha_success = success r, ha_result = result r\<rparr>"
      by blast
  qed
  then show ?thesis using len rec by (simp add: acts_def st1_def)
qed

theorem history_record_aligned_witness:
  "step (example_env (\<lambda>n. Completion ''failing plan'')) example_agent example_state = Inr after_failing_plan
   \<and> length (hr_actions (last (history after_failing_plan))) = length (plan_actions failing_plan)
   \<and> (\<exists>r s. invocation example_agent (plan_actions failing_plan)
                (example_state\<lparr>requests := requests example_state + 1\<rparr>) 0 = Some (r, s)
          \<and> hr_actions (last (history after_failing_plan)) ! 0
              = \<lparr>ha_name = fst (plan_actions failing_plan ! 0), ha_args = snd (plan_actions failing_plan ! 0),
                 ha_success = success r, ha_result = result r\<rparr>)"
proof -
  have h1: "step (example_env (\<lambda>n. Completion ''failing plan'')) example_agent example_state
              = Inr after_failing_plan"
    by code_simp
  have h2: "completions (example_env (\<lambda>n. Completion ''failing plan'')) (requests example_state)
              = Completion ''failing plan''"
    by (simp add: example_env_def)
  have h3: "JSON_parse (example_env (\<lambda>n. Completion ''failing plan'')) ''failing plan'' = Some failing_plan"
    by (simp add: example_env_def example_parse_def)
  have h4: "history after_failing_plan
        = history (state_before example_agent (plan_actions failing_plan)
                     (example_state\<lparr>requests := requests example_state + 1\<rparr>)
                     (length (plan_actions failing_plan))) @ [last (history after_failing_plan)]"
    by code_simp
  have pos: "0 < length (plan_actions failing_plan)"
    by (simp add: failing_plan_def)
  from history_record_aligned [OF h1 h2 h3 h4] pos h1 show ?thesis by blast
qed

text \<open>
  C9. Let a step receive a completion that parses as a plan, and let the agent be no
  longer running when the loop comes to some entry \<open>j\<close> of the plan. Then the step ends
  in the \<^verbatim>\<open>catch\<close> callback: it logs a runtime error and sleeps 1000 ms, and the history is
  what the dispatch loop left, with no record appended. When the snapshot taken after
  the loop succeeds, the swallowed error is the TypeError of reading an unfilled slot.
\<close>

theorem stopped_plan_leaves_no_record:
  assumes gen: "\<not> isl (generateMessages env ag st)"
    and resp: "completions env (requests st) = Completion text"
    and plan: "JSON_parse env text = Some plan"
    and j: "j < length (plan_actions plan)"
    and stopped: "\<not> running (state_before ag (plan_actions plan) (st\<lparr>requests := requests st + 1\<rparr>) j)"
  shows "\<exists>e st'. step env ag st = Inr st'
      \<and> st' = snd (sleep (JNum 1000) (log ''Runtime error'' [e]
                (state_before ag (plan_actions plan) (st\<lparr>requests := requests st + 1\<rparr>)
                   (length (plan_actions plan)))))
      \<and> history st' = history (state_before ag (plan_actions plan) (st\<lparr>requests := requests st + 1\<rparr>)
                   (length (plan_actions plan)))
      \<and> delays st' = delays (state_before ag (plan_actions plan) (st\<lparr>requests := requests st + 1\<rparr>)
                   (length (plan_actions plan))) @ [JNum 1000]
      \<and> (\<not> isl (getCurrentBrowserState (sanitizeHTML env)
                  (browser (state_before ag (plan_actions plan) (st\<lparr>requests := requests st + 1\<rparr>)
                   (length (plan_actions plan)))))
           \<longrightarrow> e = TypeError)"
proof -
  define st1 where "st1 = st\<lparr>requests := requests st + 1\<rparr>"
  define acts where "acts = plan_actions plan"
  obtain res s1 where run: "run_actions ag acts 0 [] st1 = (res, s1)"
    by (cases "run_actions ag acts 0 [] st1")
  have s1: "state_before ag acts st1 (length acts) = s1"
    using run by (simp add: state_before_all)
  from gen obtain msgs where msgs: "generateMessages env ag st = Inr msgs"
    by (cases "generateMessages env ag st") simp_all
  have "invocation ag acts st1 j = None"
    using stopped by (simp add: invocation_def acts_def st1_def case_prod_beta split: option.splits)
  then have "array_get res (0 + j) = None"
    using run_actions_slot [of "[]" 0 j acts ag st1] j run by (simp add: acts_def)
  then have hole: "record_actions acts 0 res = Inl TypeError"
    using j by (intro record_actions_hole [of j]) (simp_all add: acts_def)
  have step: "step env ag st =
      (case on_completion env ag text st1 of
         (thrown, st2) \<Rightarrow>
           (case thrown of None \<Rightarrow> Inr st2 | Some e \<Rightarrow> Inr (on_failure (Thrown e) st2)))"
    using msgs resp by (simp add: step_def st1_def Let_def)
  have fail: "on_failure (Thrown e) s1 = snd (sleep (JNum 1000) (log ''Runtime error'' [e] s1))" for e
    by (simp add: on_failure_def)
  have frame: "history (snd (sleep (JNum 1000) (log ''Runtime error'' [e] s1))) = history s1
      \<and> delays (snd (sleep (JNum 1000) (log ''Runtime error'' [e] s1))) = delays s1 @ [JNum 1000]" for e
    by (simp add: sleep_def log_def Let_def)
  show ?thesis
  proof (cases "getCurrentBrowserState (sanitizeHTML env) (browser s1)")
    case (Inl e)
    then have "step env ag st = Inr (snd (sleep (JNum 1000) (log ''Runtime error'' [e] s1)))"
      using step plan run fail by (simp add: on_completion_def acts_def)
    then show ?thesis using frame [of e] Inl s1 unfolding acts_def st1_def by auto
  next
    case (Inr bState)
    then have "step env ag st = Inr (snd (sleep (JNum 1000) (log ''Runtime error'' [TypeError] s1)))"
      using step plan run fail hole by (simp add: on_completion_def acts_def)
    then show ?thesis using frame [of TypeError] s1 unfolding acts_def st1_def by auto
  qed
qed

theorem stopped_plan_leaves_no_record_witness:
  "\<not> running (state_before example_agent (plan_actions early_done_plan)
                 (example_state\<lparr>requests := requests example_state + 1\<rparr>) 1)
   \<and> (\<exists>e st'. step (example_env (\<lambda>n. Completion ''early done'')) example_agent example_state = Inr st'
      \<and> st' = snd (sleep (JNum 1000) (log ''Runtime error'' [e]
                (state_before example_agent (plan_actions early_done_plan)
                   (example_state\<lparr>requests := requests example_state + 1\<rparr>)
                   (length (plan_actions early_done_plan)))))
      \<and> history st' = history (state_before example_agent (plan_actions early_done_plan)
                   (example_state\<lparr>requests := requests example_state + 1\<rparr>)
                   (length (plan_actions early_done_plan)))
      \<and> delays st' = delays (state_before example_agent (plan_actions early_done_plan)
                   (example_state\<lparr>requests := requests example_state + 1\<rparr>)
                   (length (plan_actions early_done_plan))) @ [JNum 1000]
      \<and> (\<not> isl (getCurrentBrowserState (sanitizeHTML (example_env (\<lambda>n. Completion ''early done'')))
                  (browser (state_before example_agent (plan_actions early_done_plan)
                   (example_state\<lparr>requests := requests example_state + 1\<rparr>)
                   (length (plan_actions early_done_plan)))))
           \<longrightarrow> e = TypeError))"
proof -
  have gen: "\<not> isl (generateMessages (example_env (\<lambda>n. Completion ''early done'')) example_agent example_state)"
    by code_simp
  have resp: "completions (example_env (\<lambda>n. Completion ''early done'')) (requests example_state)
      = Completion ''early done''"
    by (simp add: example_env_def)
  have plan: "JSON_parse (example_env (\<lambda>n. Completion ''early done'')) ''early done'' = Some early_done_plan"
    by (simp add: example_env_def example_parse_def)
  have j: "1 < length (plan_actions early_done_plan)"
    by (simp add: early_done_plan_def)
  have stopped: "\<not> running (state_before example_agent (plan_actions early_done_plan)
                 (example_state\<lparr>requests := requests example_state + 1\<rparr>) 1)"
    by code_simp
  from stopped_plan_leaves_no_record [OF gen resp plan j stopped] stopped show ?thesis
    by (rule_tac conjI)
qed

section \<open>Properties of the lifecycle\<close>

lemma start_loop_exit:
  "\<not> (running st \<and> int stepCount < maxSteps ag) \<Longrightarrow>
   start_loop env ag st stepCount = (None, st, stepCount)"
  by (subst start_loop.simps) auto

lemma start_loop_rejected:
  "running st \<Longrightarrow> int stepCount < maxSteps ag \<Longrightarrow> step env ag st = Inl e \<Longrightarrow>
   start_loop env ag st stepCount = (Some e, st, stepCount + 1)"
  by (subst start_loop.simps) simp

lemma start_loop_next:
  "running st \<Longrightarrow> int stepCount < maxSteps ag \<Longrightarrow> step env ag st = Inr st' \<Longrightarrow>
   start_loop env ag st stepCount = start_loop env ag st' (stepCount + 1)"
  by (subst start_loop.simps) simp

lemma step_results_exit:
  "\<not> (running st \<and> int stepCount < maxSteps ag) \<Longrightarrow> step_results env ag st stepCount = []"
  by (subst step_results.simps) auto

lemma step_results_rejected:
  "running st \<Longrightarrow> int stepCount < maxSteps ag \<Longrightarrow> step env ag st = Inl e \<Longrightarrow>
   step_results env ag st stepCount = [Inl e]"
  by (subst step_results.simps) simp

lemma step_results_next:
  "running st \<Longrightarrow> int stepCount < maxSteps ag \<Longrightarrow> step env ag st = Inr st' \<Longrightarrow>
   step_results env ag st stepCount = Inr st' # step_results env ag st' (stepCount + 1)"
  by (subst step_results.simps) simp

lemma step_results_bound:
  "length (step_results env ag st stepCount) \<le> nat (maxSteps ag) - stepCount"
proof (induction env ag st stepCount rule: step_results.induct)
  case (1 env ag st stepCount)
  show ?case
  proof (cases "running st \<and> int stepCount < maxSteps ag")
    case False
    then show ?thesis by (simp add: step_results_exit)
  next
    case True
    then have more: "stepCount < nat (maxSteps ag)" by linarith
    show ?thesis
    proof (cases "step env ag st")
      case (Inl e)
      then show ?thesis using True more by (simp add: step_results_rejected)
    next
      case (Inr st')
      from "1.IH" [OF True Inr]
      have "length (step_results env ag st' (stepCount + 1)) \<le> nat (maxSteps ag) - (stepCount + 1)" .
      then show ?thesis using True Inr more by (simp add: step_results_next)
    qed
  qed
qed

lemma start_loop_counts:
  "snd (snd (start_loop env ag st stepCount)) = stepCount + length (step_results env ag st stepCount)"
proof (induction env ag st stepCount rule: start_loop.induct)
  case (1 env ag st stepCount)
  show ?case
  proof (cases "running st \<and> int stepCount < maxSteps ag")
    case False
    then show ?thesis by (simp add: start_loop_exit step_results_exit)
  next
    case True
    show ?thesis
    proof (cases "step env ag st")
      case (Inl e)
      then show ?thesis using True by (simp add: start_loop_rejected step_results_rejected)
    next
      case (Inr st')
      from "1.IH" [OF True Inr] show ?thesis
        using True Inr by (simp add: start_loop_next step_results_next)
    qed
  qed
qed

lemma loop_reaches_same_result:
  "loop_reaches env ag origin cur \<Longrightarrow>
   start_loop env ag (fst origin) (snd origin) = start_loop env ag (fst cur) (snd cur)"
proof (induction rule: loop_reaches.induct)
  case entry
  show ?case by simp
next
  case (iteration st stepCount st')
  have "start_loop env ag st stepCount = start_loop env ag st' (stepCount + 1)"
    using iteration.hyps by (intro start_loop_next)
  with iteration.IH show ?case by simp
qed



text \<open>
  C4. From \<open>stepCount = 0\<close> the loop calls \<^verbatim>\<open>step\<close> at most \<open>maxSteps\<close> times, whatever the
  steps do to the running flag, and the \<open>stepCount\<close> it ends with is the number of calls
  it made, rejected ones included.
\<close>

theorem loop_bounded_by_maxSteps:
  "length (step_results env ag st 0) \<le> nat (maxSteps ag)
   \<and> snd (snd (start_loop env ag st 0)) = length (step_results env ag st 0)"
  using step_results_bound [of env ag st 0] start_loop_counts [of env ag st 0] by simp

theorem loop_bounded_by_maxSteps_witness:
  "length (step_results chatty_env example_agent example_state 0) \<le> nat (maxSteps example_agent)
   \<and> snd (snd (start_loop chatty_env example_agent example_state 0))
       = length (step_results chatty_env example_agent example_state 0)"
  by (rule loop_bounded_by_maxSteps)

text \<open>
  C5. Let \<^verbatim>\<open>start\<close> be called on an idle agent and let its loop have come to a state in
  which the completion request fails with code \<^verbatim>\<open>token_limit_exceeded\<close>. Then that step
  resolves with the running flag false, it is the last step of the loop, and \<^verbatim>\<open>start\<close>
  returns after one call of \<^verbatim>\<open>stop\<close>: the running flag is still false, and exactly
  \<^verbatim>\<open>stopped\<close> and \<^verbatim>\<open>completed\<close> have been dispatched since the step, with one task
  launched and no further request issued.
\<close>

theorem token_limit_terminal:
  assumes idle: "\<not> running s0"
    and reach: "loop_reaches env ag (s0\<lparr>running := True\<rparr>, 0) (st, stepCount)"
    and run: "running st"
    and below: "int stepCount < maxSteps ag"
    and gen: "\<not> isl (generateMessages env ag st)"
    and tok: "completions env (requests st)
                = Failed (APIError status message (Some ''token_limit_exceeded''))"
  shows "\<exists>st'. step env ag st = Inr st' \<and> \<not> running st'
      \<and> history st' = history st \<and> events st' = events st
      \<and> start_loop env ag st stepCount = (None, st', stepCount + 1)
      \<and> step_results env ag st stepCount = [Inr st']
      \<and> (\<exists>final. start env ag s0 = (None, final) \<and> \<not> running final
            \<and> events final = events st' @ [''stopped'', ''completed'']
            \<and> length (launched final) = length (launched st') + 1
            \<and> requests final = requests st + 1)"
proof -
  from gen obtain msgs where msgs: "generateMessages env ag st = Inr msgs"
    by (cases "generateMessages env ag st") simp_all
  define st' where "st' = on_failure (APIError status message (Some ''token_limit_exceeded''))
                            (st\<lparr>requests := requests st + 1\<rparr>)"
  have step: "step env ag st = Inr st'"
    using msgs tok by (simp add: step_def st'_def Let_def)
  have stopped: "\<not> running st'"
    by (simp add: st'_def on_failure_def sleep_def log_def Let_def)
  have same: "history st' = history st \<and> events st' = events st \<and> requests st' = requests st + 1"
    by (simp add: st'_def on_failure_def sleep_def log_def Let_def)
  have exit: "start_loop env ag st' (stepCount + 1) = (None, st', stepCount + 1)"
    using stopped by (simp add: start_loop_exit)
  have loop: "start_loop env ag st stepCount = (None, st', stepCount + 1)"
    using start_loop_next [OF run below step] exit by simp
  have "step_results env ag st' (stepCount + 1) = []"
    using stopped by (simp add: step_results_exit)
  then have results: "step_results env ag st stepCount = [Inr st']"
    using step_results_next [OF run below step] by simp
  have whole: "start_loop env ag (s0\<lparr>running := True\<rparr>) 0 = (None, st', stepCount + 1)"
    using loop_reaches_same_result [OF reach] loop by simp
  define final where "final = (stop ag st')\<lparr>events := events (stop ag st') @ [''completed'']\<rparr>"
  have start: "start env ag s0 = (None, final)"
    using idle whole by (simp add: start_def final_def Let_def)
  have fin: "\<not> running final \<and> events final = events st' @ [''stopped'', ''completed'']
      \<and> length (launched final) = length (launched st') + 1 \<and> requests final = requests st + 1"
    using same by (simp add: final_def stop_def Let_def)
  show ?thesis using step stopped same loop results start fin by blast
qed

theorem token_limit_terminal_witness:
  "loop_reaches limited_env example_agent (idle_state\<lparr>running := True\<rparr>, 0) (after_unparsable, 0 + 1)
   \<and> (\<exists>st'. step limited_env example_agent after_unparsable = Inr st' \<and> \<not> running st'
      \<and> history st' = history after_unparsable \<and> events st' = events after_unparsable
      \<and> start_loop limited_env example_agent after_unparsable (0 + 1) = (None, st', 0 + 1 + 1)
      \<and> step_results limited_env example_agent after_unparsable (0 + 1) = [Inr st']
      \<and> (\<exists>final. start limited_env example_agent idle_state = (None, final) \<and> \<not> running final
            \<and> events final = events st' @ [''stopped'', ''completed'']
            \<and> length (launched final) = length (launched st') + 1
            \<and> requests final = requests after_unparsable + 1))"
proof -
  have idle: "\<not> running idle_state"
    by (simp add: idle_state_def)
  have first: "step limited_env example_agent (idle_state\<lparr>running := True\<rparr>) = Inr after_unparsable"
    by code_simp
  have go: "running (idle_state\<lparr>running := True\<rparr>)" "int 0 < maxSteps example_agent"
    by (simp_all add: example_agent_def)
  have reach: "loop_reaches limited_env example_agent (idle_state\<lparr>running := True\<rparr>, 0)
                 (after_unparsable, 0 + 1)"
    by (rule loop_reaches.iteration [OF loop_reaches.entry go first])
  have run: "running after_unparsable"
    by code_simp
  have below: "int (0 + 1) < maxSteps example_agent"
    by (simp add: example_agent_def)
  have gen: "\<not> isl (generateMessages limited_env example_agent after_unparsable)"
    by code_simp
  have tok: "completions limited_env (requests after_unparsable)
      = Failed (APIError 400 ''maximum context length exceeded'' (Some ''token_limit_exceeded''))"
    by code_simp
  from token_limit_terminal [OF idle reach run below gen tok] reach show ?thesis
    by (rule_tac conjI)
qed

section \<open>Properties of the browser operations\<close>







lemma snapshot_index:
  "getCurrentBrowserState sanitize b = Inr bState \<Longrightarrow>
   bs_currentTabIndex bState = (if b = [] then - 1 else 0)"
  by (cases b) (auto simp: getCurrentBrowserState_def Let_def findIndex_def promise_truthy_def
      split: sum.splits)

text \<open>
  C8, evaluated on the code. With two tabs of which the second is the visible one, the
  current page is tab 1, while the snapshot, and with it the record a step appends,
  gives 0 as \<open>currentTabIndex\<close>.
\<close>

theorem active_tab_index_ignores_visibility:
  "getCurrentPage (browser two_tab_state) = Some 1
   \<and> map_sum id bs_currentTabIndex (getCurrentBrowserState (\<lambda>s. s) (browser two_tab_state)) = Inr 0
   \<and> map_sum id (\<lambda>st. map currentTabIndex (history st))
        (step (example_env (\<lambda>n. Completion ''no actions'')) example_agent two_tab_state) = Inr [0]"
  by code_simp

end
